theory Spec2Isabelle
  imports Complex_Main "HOL-Library.Word"
begin

section \<open>Numbers\<close>

text \<open>
  The utility namespace \<^verbatim>\<open>GameUtils\<close> of \<^verbatim>\<open>utils.js\<close> and the table
  \<^verbatim>\<open>GAME_CONSTANTS\<close> of \<^verbatim>\<open>constants.js\<close>.

  A JavaScript Number is an IEEE 754 binary64 value: a finite value, an infinity or NaN
  (\<open>f64\<close>). A finite value is a real \<open>m * 2^e\<close> with \<open>\<bar>m\<bar> < 2^53\<close> and
  \<open>-1074 \<le> e \<le> 971\<close>; \<open>Finite v\<close> stands for such a value, and the operations below
  return such values. The two zeros are one value, \<open>Finite 0\<close>: they are equal for
  \<^verbatim>\<open>===\<close> and for every comparison, and they differ only as divisors. A zero divisor
  counts as \<open>+0\<close> here; the two divisors of this program that can be zero, \<^verbatim>\<open>2 * a\<close> in
  \<open>raySphere\<close> (\<open>a\<close> is a sum of squares) and the length in \<open>normalize\<close> (guarded), are
  never \<open>-0\<close>.

  An arithmetic operation returns the exact result rounded to the nearest binary64 value,
  a tie going to the value with the even significand (\<open>f64_round\<close>). Around \<open>v\<close> the
  binary64 values are \<open>f64_quantum v\<close> apart: \<open>2^(e - 52)\<close> for \<open>2^e \<le> \<bar>v\<bar> < 2^(e + 1)\<close>,
  and \<open>2^(-1074)\<close> below \<open>2^(-1022)\<close>, so that a result of magnitude below \<open>2^(-1075)\<close>
  is zero. A result of magnitude \<open>2^1024 - 2^970\<close> or more (the largest finite value plus
  half a step) is an infinity.
\<close>

datatype f64 = Finite real | PosInf | NegInf | NaN

definition round_half_even :: "real \<Rightarrow> int" where
  "round_half_even v =
     (let f = \<lfloor>v\<rfloor>; d = v - of_int f
      in if d < 1 / 2 then f
         else if d > 1 / 2 then f + 1
         else if even f then f else f + 1)"

definition pow2 :: "int \<Rightarrow> real" where
  "pow2 k = (if 0 \<le> k then 2 ^ nat k else 1 / 2 ^ nat (- k))"

definition f64_quantum :: "real \<Rightarrow> real" where
  "f64_quantum v = pow2 (max \<lfloor>log 2 \<bar>v\<bar>\<rfloor> (- 1022) - 52)"

definition f64_round :: "real \<Rightarrow> f64" where
  "f64_round v =
     (if v = 0 then Finite 0
      else if \<bar>v\<bar> \<ge> 2 ^ 1024 - 2 ^ 970 then (if 0 < v then PosInf else NegInf)
      else Finite (f64_quantum v * of_int (round_half_even (v / f64_quantum v))))"

fun f64_add :: "f64 \<Rightarrow> f64 \<Rightarrow> f64" where
  "f64_add (Finite a) (Finite b) = f64_round (a + b)"
| "f64_add NaN _ = NaN"
| "f64_add _ NaN = NaN"
| "f64_add PosInf NegInf = NaN"
| "f64_add NegInf PosInf = NaN"
| "f64_add PosInf _ = PosInf"
| "f64_add _ PosInf = PosInf"
| "f64_add NegInf _ = NegInf"
| "f64_add _ NegInf = NegInf"

fun f64_neg :: "f64 \<Rightarrow> f64" where
  "f64_neg (Finite a) = Finite (- a)"
| "f64_neg PosInf = NegInf"
| "f64_neg NegInf = PosInf"
| "f64_neg NaN = NaN"

definition f64_sub :: "f64 \<Rightarrow> f64 \<Rightarrow> f64" where
  "f64_sub a b = f64_add a (f64_neg b)"

fun f64_mul :: "f64 \<Rightarrow> f64 \<Rightarrow> f64" where
  "f64_mul (Finite a) (Finite b) = f64_round (a * b)"
| "f64_mul NaN _ = NaN"
| "f64_mul _ NaN = NaN"
| "f64_mul (Finite a) PosInf = (if a = 0 then NaN else if 0 < a then PosInf else NegInf)"
| "f64_mul (Finite a) NegInf = (if a = 0 then NaN else if 0 < a then NegInf else PosInf)"
| "f64_mul PosInf (Finite b) = (if b = 0 then NaN else if 0 < b then PosInf else NegInf)"
| "f64_mul NegInf (Finite b) = (if b = 0 then NaN else if 0 < b then NegInf else PosInf)"
| "f64_mul PosInf PosInf = PosInf"
| "f64_mul PosInf NegInf = NegInf"
| "f64_mul NegInf PosInf = NegInf"
| "f64_mul NegInf NegInf = PosInf"

text \<open>
  Division: \<open>0 / 0\<close> and the quotient of two infinities are NaN, a finite value divided by
  an infinity is zero, and a nonzero value divided by zero is an infinity.
\<close>

fun f64_div :: "f64 \<Rightarrow> f64 \<Rightarrow> f64" where
  "f64_div (Finite a) (Finite b) =
     (if b = 0 then (if a = 0 then NaN else if 0 < a then PosInf else NegInf)
      else f64_round (a / b))"
| "f64_div NaN _ = NaN"
| "f64_div _ NaN = NaN"
| "f64_div (Finite a) PosInf = Finite 0"
| "f64_div (Finite a) NegInf = Finite 0"
| "f64_div PosInf (Finite b) = (if 0 \<le> b then PosInf else NegInf)"
| "f64_div NegInf (Finite b) = (if 0 \<le> b then NegInf else PosInf)"
| "f64_div PosInf PosInf = NaN"
| "f64_div PosInf NegInf = NaN"
| "f64_div NegInf PosInf = NaN"
| "f64_div NegInf NegInf = NaN"

text \<open>
  \<^verbatim>\<open>Math.sqrt\<close>: the square root rounded to the nearest binary64 value, as the engines
  compute it; NaN for a negative argument.
\<close>

fun f64_sqrt :: "f64 \<Rightarrow> f64" where
  "f64_sqrt (Finite a) = (if a < 0 then NaN else f64_round (sqrt a))"
| "f64_sqrt PosInf = PosInf"
| "f64_sqrt NegInf = NaN"
| "f64_sqrt NaN = NaN"

text \<open>
  The comparisons \<^verbatim>\<open><\<close>, \<^verbatim>\<open>>\<close>, \<^verbatim>\<open><=\<close>, \<^verbatim>\<open>>=\<close> and \<^verbatim>\<open>===\<close>: all are false when an operand
  is NaN.
\<close>

fun f64_lt :: "f64 \<Rightarrow> f64 \<Rightarrow> bool" where
  "f64_lt (Finite a) (Finite b) = (a < b)"
| "f64_lt NaN _ = False"
| "f64_lt _ NaN = False"
| "f64_lt PosInf _ = False"
| "f64_lt _ PosInf = True"
| "f64_lt _ NegInf = False"
| "f64_lt NegInf _ = True"

definition f64_gt :: "f64 \<Rightarrow> f64 \<Rightarrow> bool" where
  "f64_gt a b = f64_lt b a"

definition f64_ge :: "f64 \<Rightarrow> f64 \<Rightarrow> bool" where
  "f64_ge a b = (a \<noteq> NaN \<and> b \<noteq> NaN \<and> \<not> f64_lt a b)"

definition f64_le :: "f64 \<Rightarrow> f64 \<Rightarrow> bool" where
  "f64_le a b = f64_ge b a"

definition f64_eq :: "f64 \<Rightarrow> f64 \<Rightarrow> bool" where
  "f64_eq a b = (a \<noteq> NaN \<and> a = b)"

text \<open>
  \<^verbatim>\<open>Math.max\<close> and \<^verbatim>\<open>Math.min\<close> of two Numbers: NaN when an argument is NaN.
\<close>

definition Math_max :: "f64 \<Rightarrow> f64 \<Rightarrow> f64" where
  "Math_max a b = (if a = NaN \<or> b = NaN then NaN else if f64_lt a b then b else a)"

definition Math_min :: "f64 \<Rightarrow> f64 \<Rightarrow> f64" where
  "Math_min a b = (if a = NaN \<or> b = NaN then NaN else if f64_lt b a then b else a)"

text \<open>
  \<^verbatim>\<open>Math.floor\<close>, \<^verbatim>\<open>Math.trunc\<close> and \<^verbatim>\<open>Math.round\<close> (the nearest integer, a tie
  going up) are exact: the integer they name is a binary64 value. An infinity and NaN
  are returned as they are.
\<close>

definition js_trunc :: "real \<Rightarrow> int" where
  "js_trunc v = (if v < 0 then \<lceil>v\<rceil> else \<lfloor>v\<rfloor>)"

fun Math_floor :: "f64 \<Rightarrow> f64" where
  "Math_floor (Finite v) = Finite (of_int \<lfloor>v\<rfloor>)"
| "Math_floor x = x"

fun Math_trunc :: "f64 \<Rightarrow> f64" where
  "Math_trunc (Finite v) = Finite (of_int (js_trunc v))"
| "Math_trunc x = x"

fun Math_round_f64 :: "f64 \<Rightarrow> f64" where
  "Math_round_f64 (Finite v) = Finite (of_int \<lfloor>v + 1 / 2\<rfloor>)"
| "Math_round_f64 x = x"

text \<open>
  \<^verbatim>\<open>a % b\<close>: the remainder of the division truncated toward zero, which is exact and
  has the sign of \<open>a\<close>; NaN when \<open>a\<close> is not finite or \<open>b\<close> is zero.
\<close>

fun f64_rem :: "f64 \<Rightarrow> f64 \<Rightarrow> f64" where
  "f64_rem (Finite a) (Finite b) =
     (if b = 0 then NaN else Finite (a - b * of_int (js_trunc (a / b))))"
| "f64_rem (Finite a) PosInf = Finite a"
| "f64_rem (Finite a) NegInf = Finite a"
| "f64_rem _ _ = NaN"

text \<open>\<^verbatim>\<open>Math.PI\<close> is the binary64 value nearest to \<open>pi\<close>, \<open>884279719003555 / 2^48\<close>
  (\<^verbatim>\<open>3.141592653589793\<close>).\<close>

definition Math_PI :: f64 where
  "Math_PI = Finite (884279719003555 / 2 ^ 48)"

text \<open>The value of \<^verbatim>\<open>Math.PI * 2\<close>, which is exact (\<^verbatim>\<open>6.283185307179586\<close>).\<close>

definition two_pi :: real where
  "two_pi = 884279719003555 / 2 ^ 47"

section \<open>Data model\<close>

text \<open>
  A position or vector is the object \<^verbatim>\<open>{x, y, z}\<close> of three Numbers (\<open>vec3_f64\<close>, with
  the fields \<open>fx\<close>, \<open>fy\<close>, \<open>fz\<close>).

  Some helpers are also given on real numbers (a position is then a \<open>vec3\<close>, with the
  fields \<open>vx\<close>, \<open>vy\<close>, \<open>vz\<close>), with exact arithmetic: \<open>clamp\<close>, \<open>isInBounds\<close> and
  \<open>clampToBounds\<close>, which only compare and select, so that on finite Numbers they return
  what the code returns; \<open>lerp\<close> and \<^verbatim>\<open>Math.round\<close>, for the channels that \<open>lerpColor\<close>
  interpolates; and \<open>calculateDamage\<close>, for the bounds of its result on real arguments.
\<close>

record vec3_f64 =
  fx :: f64
  fy :: f64
  fz :: f64

record vec3 =
  vx :: real
  vy :: real
  vz :: real

subsection \<open>The constants table\<close>

text \<open>
  A field that the code reads through \<^verbatim>\<open>?.\<close> or \<^verbatim>\<open>||\<close> is optional: \<open>None\<close> is
  JavaScript's \<^verbatim>\<open>undefined\<close>. The table itself may be missing
  (\<^verbatim>\<open>typeof GAME_CONSTANTS === 'undefined'\<close>), so the game helpers take a
  \<open>game_constants option\<close>.
\<close>

record player_constants =
  SPEED :: real
  HEALTH :: real
  HEIGHT :: real
  SENSITIVITY :: real

record world_constants =
  SIZE :: "real option"
  GRAVITY :: real
  GROUND_LEVEL :: real

record rifle_constants =
  DAMAGE :: real
  AMMO :: real
  BULLET_SPEED :: real

record weapons_constants =
  RIFLE :: rifle_constants
  MAX_RANGE :: "real option"
  FALLOFF_START :: "real option"

record networks_constants =
  UPDATE_RATE :: real
  SERVER_PORT :: real
  MAX_PLAYERS :: real

record game_constants =
  PLAYER :: player_constants
  WORLD :: "world_constants option"
  WEAPONS :: "weapons_constants option"
  NETWORKS :: networks_constants

text \<open>The table of \<^verbatim>\<open>constants.js\<close>. Its \<^verbatim>\<open>WEAPONS\<close> entry has no \<^verbatim>\<open>MAX_RANGE\<close> and no
  \<^verbatim>\<open>FALLOFF_START\<close>.\<close>

definition GAME_CONSTANTS :: game_constants where
  "GAME_CONSTANTS =
     \<lparr> PLAYER = \<lparr> SPEED = 10, HEALTH = 100, HEIGHT = 18 / 10, SENSITIVITY = 2 / 1000 \<rparr>,
       WORLD = Some \<lparr> SIZE = Some 200, GRAVITY = 98 / 10, GROUND_LEVEL = 0 \<rparr>,
       WEAPONS = Some \<lparr> RIFLE = \<lparr> DAMAGE = 25, AMMO = 30, BULLET_SPEED = 100 \<rparr>,
                        MAX_RANGE = None, FALLOFF_START = None \<rparr>,
       NETWORKS = \<lparr> UPDATE_RATE = 20, SERVER_PORT = 3000, MAX_PLAYERS = 20 \<rparr> \<rparr>"

text \<open>\<^verbatim>\<open>v || d\<close> on a number that may be undefined: \<^verbatim>\<open>undefined\<close> and \<open>0\<close> are falsy.\<close>

definition or_default :: "real option \<Rightarrow> real \<Rightarrow> real" where
  "or_default v d = (case v of None \<Rightarrow> d | Some n \<Rightarrow> if n = 0 then d else n)"

section \<open>Math helpers\<close>

definition distance3D_f64 :: "vec3_f64 \<Rightarrow> vec3_f64 \<Rightarrow> f64" where
  "distance3D_f64 pos1 pos2 =
     (let dx = f64_sub (fx pos2) (fx pos1);
          dy = f64_sub (fy pos2) (fy pos1);
          dz = f64_sub (fz pos2) (fz pos1)
      in f64_sqrt (f64_add (f64_add (f64_mul dx dx) (f64_mul dy dy)) (f64_mul dz dz)))"

text \<open>\<^verbatim>\<open>clamp(value, min, max)\<close> is \<^verbatim>\<open>Math.min(Math.max(value, min), max)\<close>.\<close>

definition clamp_f64 :: "f64 \<Rightarrow> f64 \<Rightarrow> f64 \<Rightarrow> f64" where
  "clamp_f64 v lo hi = Math_min (Math_max v lo) hi"

definition clamp :: "real \<Rightarrow> real \<Rightarrow> real \<Rightarrow> real" where
  "clamp v lo hi = min (max v lo) hi"

definition lerp :: "real \<Rightarrow> real \<Rightarrow> real \<Rightarrow> real" where
  "lerp start end factor = start + (end - start) * factor"

text \<open>
  \<open>normalizeAngle\<close> is two loops, one after the other:
  \<^verbatim>\<open>while (angle < 0) angle += Math.PI * 2;\<close> and
  \<^verbatim>\<open>while (angle >= Math.PI * 2) angle -= Math.PI * 2;\<close>.
  A loop that does not end is the value \<open>None\<close>.
\<close>

partial_function (option) normalizeAngle_up_f64 :: "f64 \<Rightarrow> f64 option" where
  "normalizeAngle_up_f64 angle =
     (if f64_lt angle (Finite 0)
      then normalizeAngle_up_f64 (f64_add angle (f64_mul Math_PI (Finite 2)))
      else Some angle)"

partial_function (option) normalizeAngle_down_f64 :: "f64 \<Rightarrow> f64 option" where
  "normalizeAngle_down_f64 angle =
     (if f64_ge angle (f64_mul Math_PI (Finite 2))
      then normalizeAngle_down_f64 (f64_sub angle (f64_mul Math_PI (Finite 2)))
      else Some angle)"

definition normalizeAngle_f64 :: "f64 \<Rightarrow> f64 option" where
  "normalizeAngle_f64 angle = Option.bind (normalizeAngle_up_f64 angle) normalizeAngle_down_f64"

text \<open>\<^verbatim>\<open>Math.round\<close> on a real number: the nearest integer, a tie going up.\<close>

definition Math_round :: "real \<Rightarrow> int" where
  "Math_round v = \<lfloor>v + 1 / 2\<rfloor>"

section \<open>Vector helpers\<close>

text \<open>The functions of \<^verbatim>\<open>GameUtils.vector\<close>, with the prefix \<open>vector_\<close>.\<close>

definition vector_add_f64 :: "vec3_f64 \<Rightarrow> vec3_f64 \<Rightarrow> vec3_f64" where
  "vector_add_f64 vec1 vec2 =
     \<lparr> fx = f64_add (fx vec1) (fx vec2),
       fy = f64_add (fy vec1) (fy vec2),
       fz = f64_add (fz vec1) (fz vec2) \<rparr>"

definition vector_subtract_f64 :: "vec3_f64 \<Rightarrow> vec3_f64 \<Rightarrow> vec3_f64" where
  "vector_subtract_f64 vec1 vec2 =
     \<lparr> fx = f64_sub (fx vec1) (fx vec2),
       fy = f64_sub (fy vec1) (fy vec2),
       fz = f64_sub (fz vec1) (fz vec2) \<rparr>"

definition vector_multiply_f64 :: "vec3_f64 \<Rightarrow> f64 \<Rightarrow> vec3_f64" where
  "vector_multiply_f64 vec scalar =
     \<lparr> fx = f64_mul (fx vec) scalar,
       fy = f64_mul (fy vec) scalar,
       fz = f64_mul (fz vec) scalar \<rparr>"

definition vector_length_f64 :: "vec3_f64 \<Rightarrow> f64" where
  "vector_length_f64 vec =
     f64_sqrt (f64_add (f64_add (f64_mul (fx vec) (fx vec)) (f64_mul (fy vec) (fy vec)))
                       (f64_mul (fz vec) (fz vec)))"

definition vector_normalize_f64 :: "vec3_f64 \<Rightarrow> vec3_f64" where
  "vector_normalize_f64 vec =
     (let len = vector_length_f64 vec
      in if f64_eq len (Finite 0) then \<lparr> fx = Finite 0, fy = Finite 0, fz = Finite 0 \<rparr>
         else \<lparr> fx = f64_div (fx vec) len,
                fy = f64_div (fy vec) len,
                fz = f64_div (fz vec) len \<rparr>)"

definition vector_dot_f64 :: "vec3_f64 \<Rightarrow> vec3_f64 \<Rightarrow> f64" where
  "vector_dot_f64 vec1 vec2 =
     f64_add (f64_add (f64_mul (fx vec1) (fx vec2)) (f64_mul (fy vec1) (fy vec2)))
             (f64_mul (fz vec1) (fz vec2))"

section \<open>Collision helpers\<close>

text \<open>
  The result of \<open>raySphere\<close> is \<^verbatim>\<open>null\<close> (\<open>None\<close>) or the object
  \<^verbatim>\<open>{hit: true, distance, point}\<close>.
\<close>

record ray_hit =
  hit :: bool
  hit_distance :: f64
  hit_point :: vec3_f64

definition raySphere_f64 :: "vec3_f64 \<Rightarrow> vec3_f64 \<Rightarrow> vec3_f64 \<Rightarrow> f64 \<Rightarrow> ray_hit option" where
  "raySphere_f64 rayOrigin rayDirection sphereCenter radius =
     (let oc = vector_subtract_f64 rayOrigin sphereCenter;
          a = vector_dot_f64 rayDirection rayDirection;
          b = f64_mul (Finite 2) (vector_dot_f64 oc rayDirection);
          c = f64_sub (vector_dot_f64 oc oc) (f64_mul radius radius);
          discriminant = f64_sub (f64_mul b b) (f64_mul (f64_mul (Finite 4) a) c)
      in if f64_lt discriminant (Finite 0) then None
         else (let t = f64_div (f64_sub (f64_neg b) (f64_sqrt discriminant))
                               (f64_mul (Finite 2) a)
               in if f64_gt t (Finite 0)
                  then Some \<lparr> hit = True, hit_distance = t,
                              hit_point = vector_add_f64 rayOrigin
                                            (vector_multiply_f64 rayDirection t) \<rparr>
                  else None))"

section \<open>General helpers\<close>

text \<open>
  The decimal digits of an integer: most significant digit first, and a leading \<open>-\<close> for
  a negative number.
\<close>

definition dec_char :: "nat \<Rightarrow> char" where
  "dec_char d = ''0123456789'' ! d"

function dec_digits :: "nat \<Rightarrow> string" where
  "dec_digits n = (if n < 10 then [dec_char n] else dec_digits (n div 10) @ [dec_char (n mod 10)])"
  by pat_completeness auto
termination
  by (relation "measure (\<lambda>n. n)") auto

declare dec_digits.simps [simp del]

definition toString10 :: "int \<Rightarrow> string" where
  "toString10 n = (if n < 0 then CHR ''-'' # dec_digits (nat (- n)) else dec_digits (nat n))"

text \<open>
  A Number as a string (the template literal and \<^verbatim>\<open>toString()\<close>). An integer of
  magnitude below \<open>2^53\<close> is printed with all its decimal digits. The printing of the
  other finite values is not modelled (\<open>None\<close>): JavaScript prints the shortest digits
  that read back as the same Number, and switches to exponent notation from \<open>10^21\<close> on.
\<close>

fun Number_toString :: "f64 \<Rightarrow> string option" where
  "Number_toString (Finite v) =
     (if of_int \<lfloor>v\<rfloor> = v \<and> \<bar>v\<bar> < 2 ^ 53 then Some (toString10 \<lfloor>v\<rfloor>) else None)"
| "Number_toString PosInf = Some ''Infinity''"
| "Number_toString NegInf = Some ''-Infinity''"
| "Number_toString NaN = Some ''NaN''"

text \<open>\<^verbatim>\<open>s.padStart(targetLength, c)\<close> with a pad string of one character.\<close>

definition padStart :: "nat \<Rightarrow> char \<Rightarrow> string \<Rightarrow> string" where
  "padStart targetLength c s = replicate (targetLength - length s) c @ s"

text \<open>
  \<open>formatTime\<close>; its result is \<open>None\<close> where the printing of the minutes or of the
  seconds is not modelled.
\<close>

definition formatTime_f64 :: "f64 \<Rightarrow> string option" where
  "formatTime_f64 seconds =
     (let mins = Math_floor (f64_div seconds (Finite 60));
          secs = Math_floor (f64_rem seconds (Finite 60))
      in case (Number_toString mins, Number_toString secs) of
           (Some m, Some s) \<Rightarrow> Some (m @ '':'' @ padStart 2 (CHR ''0'') s)
         | _ \<Rightarrow> None)"

text \<open>
  The formatting that the specification describes, for comparison: minutes and seconds
  \<^emph>\<open>truncated toward zero\<close>. It is not taken from the code, which uses \<^verbatim>\<open>Math.floor\<close>.
\<close>

definition formatTime_truncating :: "f64 \<Rightarrow> string option" where
  "formatTime_truncating seconds =
     (let mins = Math_trunc (f64_div seconds (Finite 60));
          secs = Math_trunc (f64_rem seconds (Finite 60))
      in case (Number_toString mins, Number_toString secs) of
           (Some m, Some s) \<Rightarrow> Some (m @ '':'' @ padStart 2 (CHR ''0'') s)
         | _ \<Rightarrow> None)"

section \<open>Color helpers\<close>

text \<open>
  An RGB record \<^verbatim>\<open>{r, g, b}\<close>; the fields are named \<open>rgb_r\<close>, \<open>rgb_g\<close>, \<open>rgb_b\<close>.
\<close>

record rgb =
  rgb_r :: int
  rgb_g :: int
  rgb_b :: int

text \<open>
  \<^verbatim>\<open>n.toString(16)\<close> on an integer: the digits \<open>0-9a-f\<close>, most significant first, with a
  leading \<open>-\<close> for a negative number.
\<close>

definition hex_char :: "nat \<Rightarrow> char" where
  "hex_char d = ''0123456789abcdef'' ! d"

function hex_digits :: "nat \<Rightarrow> string" where
  "hex_digits n = (if n < 16 then [hex_char n] else hex_digits (n div 16) @ [hex_char (n mod 16)])"
  by pat_completeness auto
termination
  by (relation "measure (\<lambda>n. n)") auto

declare hex_digits.simps [simp del]

definition toString16 :: "int \<Rightarrow> string" where
  "toString16 n = (if n < 0 then CHR ''-'' # hex_digits (nat (- n)) else hex_digits (nat n))"

text \<open>
  \<^verbatim>\<open>v << k\<close>: the operand is taken modulo \<open>2^32\<close>, shifted by \<open>k mod 32\<close> bits, and the
  result read as a signed 32-bit integer.
\<close>

definition shl32 :: "int \<Rightarrow> nat \<Rightarrow> int" where
  "shl32 v k = sint (push_bit (k mod 32) (word_of_int v :: 32 word))"

text \<open>
  \<^verbatim>\<open>"#" + ((1 << 24) + (r << 16) + (g << 8) + b).toString(16).slice(1)\<close>. The sum is a
  sum of Numbers, so it does not wrap; \<^verbatim>\<open>slice(1)\<close> drops the first character. The
  channels are integers here: \<open>lerpColor\<close> passes results of \<^verbatim>\<open>Math.round\<close>.
\<close>

definition rgbToHex :: "int \<Rightarrow> int \<Rightarrow> int \<Rightarrow> string" where
  "rgbToHex r g b =
     CHR ''#'' # drop 1 (toString16 (shl32 1 24 + shl32 r 16 + shl32 g 8 + b))"

text \<open>
  \<^verbatim>\<open>/^#?([a-f\d]{2})([a-f\d]{2})([a-f\d]{2})$/i\<close>: an optional \<open>#\<close>, then exactly six
  characters of \<open>0-9a-fA-F\<close>, in three groups of two. \<open>#\<close> is not a hexadecimal digit, so
  a leading \<open>#\<close> can only be matched by the optional \<open>#\<close>.
\<close>

definition is_hex_digit :: "char \<Rightarrow> bool" where
  "is_hex_digit c = (c \<in> set ''0123456789abcdefABCDEF'')"

text \<open>The value of a hexadecimal digit, of either case.\<close>

definition hex_value :: "char \<Rightarrow> int" where
  "hex_value c =
     (let n = of_char c :: int
      in if 48 \<le> n \<and> n \<le> 57 then n - 48
         else if 97 \<le> n \<and> n \<le> 102 then n - 87
         else n - 55)"

text \<open>
  \<^verbatim>\<open>parseInt(s, 16)\<close> on a string that starts with hexadecimal digits: the value of the
  longest prefix of digits. (\<open>hexToRgb\<close> applies it to the groups of the match only, which
  are two hexadecimal digits each.)
\<close>

definition parseInt16 :: "string \<Rightarrow> int" where
  "parseInt16 s = foldl (\<lambda>acc c. acc * 16 + hex_value c) 0 (takeWhile is_hex_digit s)"

definition hexToRgb :: "string \<Rightarrow> rgb option" where
  "hexToRgb hex =
     (let body = (case hex of [] \<Rightarrow> [] | c # rest \<Rightarrow> if c = CHR ''#'' then rest else hex)
      in if length body = 6 \<and> list_all is_hex_digit body
         then Some \<lparr> rgb_r = parseInt16 (take 2 body),
                     rgb_g = parseInt16 (take 2 (drop 2 body)),
                     rgb_b = parseInt16 (take 2 (drop 4 body)) \<rparr>
         else None)"

text \<open>
  \<open>lerpColor\<close> parses both colors first; \<^verbatim>\<open>if (!c1 || !c2) return color1\<close>.
\<close>

definition lerpColor :: "string \<Rightarrow> string \<Rightarrow> real \<Rightarrow> string" where
  "lerpColor color1 color2 factor =
     (case (hexToRgb color1, hexToRgb color2) of
        (Some c1, Some c2) \<Rightarrow>
          (let r = Math_round (lerp (of_int (rgb_r c1)) (of_int (rgb_r c2)) factor);
               g = Math_round (lerp (of_int (rgb_g c1)) (of_int (rgb_g c2)) factor);
               b = Math_round (lerp (of_int (rgb_b c1)) (of_int (rgb_b c2)) factor)
           in rgbToHex r g b)
      | _ \<Rightarrow> color1)"

section \<open>Game helpers\<close>

text \<open>
  \<^verbatim>\<open>GAME_CONSTANTS.WEAPONS?.MAX_RANGE || 100\<close> and
  \<^verbatim>\<open>GAME_CONSTANTS.WEAPONS?.FALLOFF_START || 50\<close>: \<open>WEAPONS\<close> or the field may be missing.
  The division is reached only for \<open>falloffStart < distance < maxRange\<close>, where the
  divisor is positive.
\<close>

definition calculateDamage_f64 :: "game_constants option \<Rightarrow> f64 \<Rightarrow> f64 \<Rightarrow> f64" where
  "calculateDamage_f64 consts baseDamage distance =
     (case consts of
        None \<Rightarrow> baseDamage
      | Some gc \<Rightarrow>
          (let maxRange = Finite (or_default (Option.bind (WEAPONS gc) MAX_RANGE) 100);
               falloffStart = Finite (or_default (Option.bind (WEAPONS gc) FALLOFF_START) 50)
           in if f64_le distance falloffStart then baseDamage
              else if f64_ge distance maxRange then Finite 0
              else (let falloffFactor =
                          f64_sub (Finite 1)
                            (f64_div (f64_sub distance falloffStart)
                                     (f64_sub maxRange falloffStart))
                    in Math_round_f64 (f64_mul baseDamage falloffFactor))))"


text \<open>\<^verbatim>\<open>GAME_CONSTANTS.WORLD?.SIZE || 200\<close>, the local \<^verbatim>\<open>worldSize\<close> of both bounds helpers.\<close>

definition worldSize :: "game_constants \<Rightarrow> real" where
  "worldSize gc = or_default (Option.bind (WORLD gc) SIZE) 200"

definition isInBounds_f64 :: "game_constants option \<Rightarrow> vec3_f64 \<Rightarrow> bool" where
  "isInBounds_f64 consts position =
     (case consts of
        None \<Rightarrow> True
      | Some gc \<Rightarrow>
          (let halfSize = f64_div (Finite (worldSize gc)) (Finite 2)
           in f64_ge (fx position) (f64_neg halfSize) \<and> f64_le (fx position) halfSize \<and>
              f64_ge (fz position) (f64_neg halfSize) \<and> f64_le (fz position) halfSize))"

definition clampToBounds_f64 :: "game_constants option \<Rightarrow> vec3_f64 \<Rightarrow> vec3_f64" where
  "clampToBounds_f64 consts position =
     (case consts of
        None \<Rightarrow> position
      | Some gc \<Rightarrow>
          (let halfSize = f64_div (Finite (worldSize gc)) (Finite 2)
           in \<lparr> fx = clamp_f64 (fx position) (f64_neg halfSize) halfSize,
                fy = fy position,
                fz = clamp_f64 (fz position) (f64_neg halfSize) halfSize \<rparr>))"

text \<open>The bounds helpers on real coordinates.\<close>

definition isInBounds :: "game_constants option \<Rightarrow> vec3 \<Rightarrow> bool" where
  "isInBounds consts position =
     (case consts of
        None \<Rightarrow> True
      | Some gc \<Rightarrow>
          (let halfSize = worldSize gc / 2
           in vx position \<ge> - halfSize \<and> vx position \<le> halfSize \<and>
              vz position \<ge> - halfSize \<and> vz position \<le> halfSize))"

definition clampToBounds :: "game_constants option \<Rightarrow> vec3 \<Rightarrow> vec3" where
  "clampToBounds consts position =
     (case consts of
        None \<Rightarrow> position
      | Some gc \<Rightarrow>
          (let halfSize = worldSize gc / 2
           in \<lparr> vx = clamp (vx position) (- halfSize) halfSize,
                vy = vy position,
                vz = clamp (vz position) (- halfSize) halfSize \<rparr>))"

section \<open>Properties\<close>

subsection \<open>Rounding\<close>

text \<open>
  Rounding to the nearest integer, a tie going to the even one: the result is at most
  one half away, it is the integer that is less than one half away, and it does not
  cross an integer.
\<close>

lemma round_half_even_near: "\<bar>of_int (round_half_even v) - v\<bar> \<le> 1 / 2"
  unfolding round_half_even_def Let_def by (auto; linarith)

lemma round_half_even_nonneg: "0 \<le> v \<Longrightarrow> 0 \<le> round_half_even v"
  unfolding round_half_even_def Let_def by (auto; linarith)

lemma round_half_even_eq:
  assumes "\<bar>v - of_int m\<bar> < 1 / 2"
  shows "round_half_even v = m"
proof (cases "of_int m \<le> v")
  case True
  with assms have f: "\<lfloor>v\<rfloor> = m" by (intro floor_unique) linarith+
  show ?thesis unfolding round_half_even_def Let_def f using assms True by auto
next
  case False
  with assms have f: "\<lfloor>v\<rfloor> = m - 1" by (intro floor_unique; simp; linarith)
  show ?thesis unfolding round_half_even_def Let_def f using assms False by auto
qed

lemma round_half_even_int: "round_half_even (of_int m) = m"
  by (rule round_half_even_eq) simp


lemma round_half_even_mono_lower: "of_int m \<le> v \<Longrightarrow> m \<le> round_half_even v"
  unfolding round_half_even_def Let_def by (auto simp: le_floor_iff; linarith)

text \<open>Powers of two with an integer exponent.\<close>

lemma pow2_pos: "0 < pow2 k"
  by (simp add: pow2_def)

lemma pow2_le_one: "k \<le> 0 \<Longrightarrow> pow2 k \<le> 1"
  by (cases "k = 0") (simp_all add: pow2_def field_simps one_le_power)

lemma pow2_nat: "pow2 (int n) = 2 ^ n"
  by (simp add: pow2_def)

lemma pow2_powr: "pow2 k = 2 powr (of_int k)"
proof (cases "0 \<le> k")
  case True
  then have "(2::real) powr (of_int k) = 2 powr (real (nat k))" by simp
  also have "\<dots> = 2 ^ nat k" by (simp add: powr_realpow)
  finally show ?thesis using True by (simp add: pow2_def)
next
  case False
  then have "(2::real) powr (of_int k) = 2 powr (- real (nat (- k)))" by simp
  also have "\<dots> = 1 / 2 ^ nat (- k)" by (simp add: powr_minus powr_realpow divide_simps)
  finally show ?thesis using False by (simp add: pow2_def)
qed

lemma pow2_add: "pow2 (a + b) = pow2 a * pow2 b"
  by (simp add: pow2_powr powr_add)

lemma pow2_mono: "a \<le> b \<Longrightarrow> pow2 a \<le> pow2 b"
  by (simp add: pow2_powr)

lemma floor_log2_pow2:
  assumes "pow2 e \<le> v" "v < pow2 (e + 1)"
  shows "\<lfloor>log 2 v\<rfloor> = e"
proof -
  have v: "0 < v" using pow2_pos [of e] assms(1) by linarith
  have "of_int e \<le> log 2 v"
    using assms(1) v by (simp add: le_log_iff pow2_powr)
  moreover have "log 2 v < of_int e + 1"
    using assms(2) v by (simp add: log_less_iff pow2_powr)
  ultimately show ?thesis by (simp add: floor_eq_iff)
qed

text \<open>
  How \<open>f64_round\<close> computes. Between \<open>2^e\<close> and \<open>2^(e + 1)\<close> it rounds to a multiple of
  \<open>2^(e - 52)\<close>: to the multiple that is less than half a step away, or to the even one of
  two that are half a step away. A value that is such a multiple is returned as it is.
\<close>

lemma f64_round_zero: "f64_round 0 = Finite 0"
  by (simp add: f64_round_def)

lemma f64_round_at:
  assumes "pow2 e \<le> \<bar>v\<bar>" "\<bar>v\<bar> < pow2 (e + 1)" "- 1022 \<le> e" "e \<le> 1022"
  shows "f64_round v = Finite (pow2 (e - 52) * of_int (round_half_even (v / pow2 (e - 52))))"
proof -
  have "0 < \<bar>v\<bar>" using pow2_pos [of e] assms(1) by linarith
  then have nz: "v \<noteq> 0" by simp
  have "pow2 (e + 1) \<le> pow2 1023" using assms(4) by (intro pow2_mono) simp
  also have "pow2 1023 = 2 ^ 1023" by (simp add: pow2_def)
  finally have "\<bar>v\<bar> < 2 ^ 1023" using assms(2) by linarith
  then have small: "\<not> \<bar>v\<bar> \<ge> 2 ^ 1024 - 2 ^ 970" by simp
  have "\<lfloor>log 2 \<bar>v\<bar>\<rfloor> = e" using assms(1,2) by (rule floor_log2_pow2)
  then have q: "f64_quantum v = pow2 (e - 52)"
    using assms(3) by (simp add: f64_quantum_def)
  show ?thesis using nz small by (simp add: f64_round_def q)
qed



lemma f64_round_exact:
  assumes "pow2 e \<le> \<bar>v\<bar>" "\<bar>v\<bar> < pow2 (e + 1)" "- 1022 \<le> e" "e \<le> 1022"
    and "v / pow2 (e - 52) = of_int m"
  shows "f64_round v = Finite v"
proof -
  have "f64_round v = Finite (pow2 (e - 52) * of_int (round_half_even (v / pow2 (e - 52))))"
    using assms(1-4) by (rule f64_round_at)
  also have "round_half_even (v / pow2 (e - 52)) = m"
    by (simp only: assms(5) round_half_even_int)
  also have "pow2 (e - 52) * of_int m = v"
    using pow2_pos [of "e - 52"] assms(5) by (simp add: field_simps)
  finally show ?thesis .
qed

text \<open>
  Below \<open>2^(-1022)\<close> the step is \<open>2^(-1074)\<close>, and a value of magnitude below \<open>2^(-1075)\<close>
  becomes zero; a value from \<open>2^1024\<close> on becomes infinite.
\<close>

lemma f64_round_subnormal:
  assumes "v \<noteq> 0" "\<bar>v\<bar> < pow2 (- 1022)"
  shows "f64_round v = Finite (pow2 (- 1074) * of_int (round_half_even (v / pow2 (- 1074))))"
proof -
  have pos: "0 < \<bar>v\<bar>" using assms(1) by simp
  have "pow2 (- 1022) \<le> 1" by (rule pow2_le_one) simp
  then have "\<bar>v\<bar> < 1" using assms(2) by linarith
  then have small: "\<not> \<bar>v\<bar> \<ge> 2 ^ 1024 - 2 ^ 970" by simp
  have "log 2 \<bar>v\<bar> < of_int (- 1022)"
    using assms(2) pos by (simp only: log_less_iff pow2_powr)
  then have "\<lfloor>log 2 \<bar>v\<bar>\<rfloor> < - 1022" by (simp add: floor_less_iff)
  then have q: "f64_quantum v = pow2 (- 1074)"
    by (simp add: f64_quantum_def max_def)
  show ?thesis using assms(1) small by (simp add: f64_round_def q)
qed

lemma f64_round_underflow:
  assumes "\<bar>v\<bar> < pow2 (- 1075)"
  shows "f64_round v = Finite 0"
proof (cases "v = 0")
  case True
  then show ?thesis by (simp add: f64_round_zero)
next
  case False
  have "pow2 (- 1075) \<le> pow2 (- 1022)" by (rule pow2_mono) simp
  then have sub: "\<bar>v\<bar> < pow2 (- 1022)" using assms by linarith
  have "pow2 (- 1075) = pow2 (- 1074) * (1 / 2)"
    using pow2_add [of "- 1074" "- 1"] by (simp add: pow2_def)
  then have "\<bar>v\<bar> / pow2 (- 1074) < 1 / 2"
    using assms pow2_pos [of "- 1074"] by (simp add: field_simps)
  then have "\<bar>v / pow2 (- 1074) - of_int 0\<bar> < 1 / 2"
    using pow2_pos [of "- 1074"] by simp
  then have "round_half_even (v / pow2 (- 1074)) = 0" by (rule round_half_even_eq)
  then show ?thesis using f64_round_subnormal [OF False sub] by simp
qed

lemma f64_round_overflow: "2 ^ 1024 \<le> v \<Longrightarrow> f64_round v = PosInf"
proof -
  assume a: "(2::real) ^ 1024 \<le> v"
  have "(0::real) < 2 ^ 1024" by simp
  with a have pos: "0 < v" by linarith
  have "(2::real) ^ 1024 - 2 ^ 970 \<le> 2 ^ 1024" by simp
  with a pos have "\<bar>v\<bar> \<ge> 2 ^ 1024 - 2 ^ 970" by linarith
  with pos show ?thesis by (simp add: f64_round_def)
qed

text \<open>
  Values that are returned as they are: the integers of magnitude below \<open>2^53\<close>, and the
  powers of two within the normal range.
\<close>

lemma f64_round_int:
  assumes "\<bar>n\<bar> < 2 ^ 53"
  shows "f64_round (of_int n) = Finite (of_int n)"
proof (cases "n = 0")
  case True
  then show ?thesis by (simp add: f64_round_zero)
next
  case False
  define v :: real where "v = of_int n"
  define e where "e = \<lfloor>log 2 \<bar>v\<bar>\<rfloor>"
  have v1: "1 \<le> \<bar>v\<bar>" using False unfolding v_def by (simp flip: of_int_abs)
  have v53: "\<bar>v\<bar> < 2 ^ 53"
  proof -
    have "real_of_int \<bar>n\<bar> < real_of_int (2 ^ 53)" using assms by (simp only: of_int_less_iff)
    then show ?thesis unfolding v_def by simp
  qed
  have "of_int e \<le> log 2 \<bar>v\<bar>" "log 2 \<bar>v\<bar> < of_int e + 1"
    unfolding e_def by linarith+
  then have lo: "pow2 e \<le> \<bar>v\<bar>" and hi: "\<bar>v\<bar> < pow2 (e + 1)"
    using v1 by (simp_all add: le_log_iff log_less_iff pow2_powr)
  have "0 \<le> log 2 \<bar>v\<bar>" using v1 by simp
  then have e0: "0 \<le> e" unfolding e_def by simp
  have "log 2 \<bar>v\<bar> < 53" using v53 v1 by (simp add: log_less_iff powr_realpow)
  then have e52: "e \<le> 52" unfolding e_def by (simp add: floor_le_iff)
  have "pow2 (e - 52) * pow2 (52 - e) = 1"
    using pow2_add [of "e - 52" "52 - e"] by (simp add: pow2_def)
  then have "v / pow2 (e - 52) = v * pow2 (52 - e)"
    using pow2_pos [of "e - 52"] by (simp add: field_simps)
  also have "\<dots> = of_int (n * 2 ^ nat (52 - e))"
    using e52 by (simp add: pow2_def v_def)
  finally have ex: "v / pow2 (e - 52) = of_int (n * 2 ^ nat (52 - e))" .
  have "- 1022 \<le> e" "e \<le> 1022" using e0 e52 by simp_all
  with lo hi have "f64_round v = Finite v"
    using ex by (rule f64_round_exact)
  then show ?thesis by (simp only: v_def)
qed

lemma f64_round_numeral: "\<bar>numeral n :: int\<bar> < 2 ^ 53 \<Longrightarrow> f64_round (numeral n) = Finite (numeral n)"
  using f64_round_int [of "numeral n"] by simp

lemma f64_round_one: "f64_round 1 = Finite 1"
  using f64_round_int [of 1] by simp

lemma f64_round_pow2:
  assumes "- 1022 \<le> e" "e \<le> 1022"
  shows "f64_round (pow2 e) = Finite (pow2 e)" "f64_round (- pow2 e) = Finite (- pow2 e)"
proof -
  have p: "pow2 e = pow2 (e - 52) * pow2 52"
    using pow2_add [of "e - 52" 52] by simp
  have q: "pow2 52 = of_int (2 ^ 52)" by (simp add: pow2_def)
  have lt: "pow2 e < pow2 (e + 1)"
    using pow2_add [of e 1] pow2_pos [of e] by (simp add: pow2_def)
  have d1: "pow2 e / pow2 (e - 52) = of_int (2 ^ 52)"
    using pow2_pos [of "e - 52"] by (simp only: p q) simp
  have d2: "- pow2 e / pow2 (e - 52) = of_int (- (2 ^ 52))"
    using pow2_pos [of "e - 52"] by (simp only: p q) simp
  have a1: "pow2 e \<le> \<bar>pow2 e\<bar>" "\<bar>pow2 e\<bar> < pow2 (e + 1)"
    using pow2_pos [of e] lt by simp_all
  have a2: "pow2 e \<le> \<bar>- pow2 e\<bar>" "\<bar>- pow2 e\<bar> < pow2 (e + 1)"
    using pow2_pos [of e] lt by simp_all
  show "f64_round (pow2 e) = Finite (pow2 e)"
    by (rule f64_round_exact [OF a1 assms d1])
  show "f64_round (- pow2 e) = Finite (- pow2 e)"
    by (rule f64_round_exact [OF a2 assms d2])
qed

lemma f64_round_half: "f64_round (1 / 2) = Finite (1 / 2)" "f64_round (- (1 / 2)) = Finite (- (1 / 2))"
  using f64_round_pow2 [of "- 1"] by (simp_all add: pow2_def)

lemma f64_round_quarter: "f64_round (1 / 4) = Finite (1 / 4)"
  using f64_round_pow2 [of "- 2"] by (simp_all add: pow2_def)

lemma f64_round_minus_three_quarters: "f64_round (- (3 / 4)) = Finite (- (3 / 4))"
  by (rule f64_round_exact [where e = "- 1" and m = "- (3 * 2 ^ 51)"]) (simp_all add: pow2_def)

lemma f64_sub_finite: "f64_sub (Finite a) (Finite b) = f64_round (a - b)"
  by (simp add: f64_sub_def)

text \<open>
  The error of rounding: at most one half for a result of magnitude below \<open>2^53\<close>, and at
  most \<open>2^(k - 54)\<close> for a value of magnitude below \<open>2^k\<close>. A value that is not negative
  is not rounded to a negative one, and below \<open>2^53\<close> a value is not rounded across an
  integer (\<open>f64_round_ge_int\<close>, \<open>f64_round_le_int\<close>).
\<close>

lemma f64_quantum_le_one:
  assumes "v \<noteq> 0" "\<bar>v\<bar> < 2 ^ 53"
  shows "f64_quantum v \<le> 1"
proof -
  have "log 2 \<bar>v\<bar> < 53"
    using assms by (simp add: log_less_iff powr_realpow)
  then have "\<lfloor>log 2 \<bar>v\<bar>\<rfloor> \<le> 52"
    by (simp add: floor_le_iff)
  then show ?thesis
    unfolding f64_quantum_def by (intro pow2_le_one) simp
qed

lemma f64_round_near:
  assumes "\<bar>v\<bar> < 2 ^ 53"
  shows "\<exists>y. f64_round v = Finite y \<and> \<bar>y - v\<bar> \<le> 1 / 2 \<and> (0 \<le> v \<longrightarrow> 0 \<le> y)"
proof (cases "v = 0")
  case True
  then show ?thesis by (simp add: f64_round_def)
next
  case False
  let ?q = "f64_quantum v"
  let ?r = "round_half_even (v / ?q)"
  have q0: "0 < ?q" unfolding f64_quantum_def by (rule pow2_pos)
  have q1: "?q \<le> 1" using False assms by (rule f64_quantum_le_one)
  have "(2::real) ^ 53 \<le> 2 ^ 1024 - 2 ^ 970" by simp
  with assms have fin: "\<not> \<bar>v\<bar> \<ge> 2 ^ 1024 - 2 ^ 970" by linarith
  have eq: "f64_round v = Finite (?q * of_int ?r)"
    using False fin by (simp add: f64_round_def)
  have "\<bar>?q * of_int ?r - v\<bar> = ?q * \<bar>of_int ?r - v / ?q\<bar>"
  proof -
    have "?q * of_int ?r - v = ?q * (of_int ?r - v / ?q)"
      using q0 by (simp add: right_diff_distrib)
    then show ?thesis using q0 by (simp add: abs_mult)
  qed
  also have "\<dots> \<le> ?q * (1 / 2)"
    using q0 round_half_even_near [of "v / ?q"] by (intro mult_left_mono) simp_all
  also have "\<dots> \<le> 1 / 2" using q1 by simp
  finally have near: "\<bar>?q * of_int ?r - v\<bar> \<le> 1 / 2" .
  have "0 \<le> ?q * of_int ?r" if "0 \<le> v"
  proof -
    have "0 \<le> v / ?q" using that q0 by simp
    then have "0 \<le> ?r" by (rule round_half_even_nonneg)
    then show ?thesis using q0 by simp
  qed
  with eq near show ?thesis by blast
qed

lemma f64_round_err:
  assumes "\<bar>v\<bar> < pow2 k" "- 1021 \<le> k" "k \<le> 1023"
  shows "\<exists>y. f64_round v = Finite y \<and> \<bar>y - v\<bar> \<le> pow2 (k - 54)"
proof (cases "v = 0")
  case True
  then show ?thesis using pow2_pos [of "k - 54"] by (simp add: f64_round_zero)
next
  case False
  let ?q = "f64_quantum v"
  let ?r = "round_half_even (v / ?q)"
  have q0: "0 < ?q" unfolding f64_quantum_def by (rule pow2_pos)
  have pos: "0 < \<bar>v\<bar>" using False by simp
  have "pow2 k \<le> pow2 1023" using assms(3) by (rule pow2_mono)
  also have "pow2 1023 = 2 ^ 1023" by (simp add: pow2_def)
  finally have "\<bar>v\<bar> < 2 ^ 1023" using assms(1) by linarith
  then have fin: "\<not> \<bar>v\<bar> \<ge> 2 ^ 1024 - 2 ^ 970" by simp
  have "log 2 \<bar>v\<bar> < of_int k"
    using assms(1) pos by (simp only: log_less_iff pow2_powr)
  then have "\<lfloor>log 2 \<bar>v\<bar>\<rfloor> < k" by (simp add: floor_less_iff)
  then have "max \<lfloor>log 2 \<bar>v\<bar>\<rfloor> (- 1022) - 52 \<le> k - 53" using assms(2) by simp
  then have q1: "?q \<le> pow2 (k - 53)"
    unfolding f64_quantum_def by (rule pow2_mono)
  have half: "pow2 (k - 53) * (1 / 2) = pow2 (k - 54)"
    using pow2_add [of "k - 53" "- 1"] by (simp add: pow2_def)
  have eq: "f64_round v = Finite (?q * of_int ?r)"
    using False fin by (simp add: f64_round_def)
  have "\<bar>?q * of_int ?r - v\<bar> = ?q * \<bar>of_int ?r - v / ?q\<bar>"
  proof -
    have "?q * of_int ?r - v = ?q * (of_int ?r - v / ?q)"
      using q0 by (simp add: right_diff_distrib)
    then show ?thesis using q0 by (simp add: abs_mult)
  qed
  also have "\<dots> \<le> ?q * (1 / 2)"
    using q0 round_half_even_near [of "v / ?q"] by (intro mult_left_mono) simp_all
  also have "\<dots> \<le> pow2 (k - 53) * (1 / 2)" using q1 by simp
  finally have "\<bar>?q * of_int ?r - v\<bar> \<le> pow2 (k - 54)" by (simp only: half)
  with eq show ?thesis by blast
qed

lemma f64_round_nonneg:
  assumes "0 \<le> v"
  shows "f64_round v = PosInf \<or> (\<exists>y. f64_round v = Finite y \<and> 0 \<le> y)"
proof -
  have "0 \<le> f64_quantum v * of_int (round_half_even (v / f64_quantum v))"
  proof -
    have q0: "0 < f64_quantum v" unfolding f64_quantum_def by (rule pow2_pos)
    then have "0 \<le> v / f64_quantum v" using assms by simp
    then have "0 \<le> round_half_even (v / f64_quantum v)" by (rule round_half_even_nonneg)
    then show ?thesis using q0 by simp
  qed
  then show ?thesis using assms by (auto simp add: f64_round_def)
qed

lemma f64_round_ge_int:
  assumes "of_int m \<le> v" "\<bar>v\<bar> < 2 ^ 53" "f64_round v = Finite y"
  shows "of_int m \<le> y"
proof (cases "v = 0")
  case True
  then show ?thesis using assms by (simp add: f64_round_zero)
next
  case False
  define j where "j = max \<lfloor>log 2 \<bar>v\<bar>\<rfloor> (- 1022) - 52"
  have q: "f64_quantum v = pow2 j" by (simp add: f64_quantum_def j_def)
  have "log 2 \<bar>v\<bar> < 53"
    using False assms(2) by (simp add: log_less_iff powr_realpow)
  then have "\<lfloor>log 2 \<bar>v\<bar>\<rfloor> \<le> 52" by (simp add: floor_le_iff)
  then have j0: "j \<le> 0" by (simp add: j_def)
  have "(2::real) ^ 53 \<le> 2 ^ 1024 - 2 ^ 970" by simp
  with assms(2) have fin: "\<not> \<bar>v\<bar> \<ge> 2 ^ 1024 - 2 ^ 970" by linarith
  have y: "y = pow2 j * of_int (round_half_even (v / pow2 j))"
    using assms(3) False fin by (simp add: f64_round_def q)
  have inv: "pow2 j * pow2 (- j) = 1"
    using pow2_add [of j "- j"] by (simp add: pow2_def)
  have pj: "pow2 (- j) = of_int (2 ^ nat (- j))" using j0 by (simp add: pow2_def)
  have "v / pow2 j = v * pow2 (- j)"
    using inv pow2_pos [of j] by (simp add: field_simps)
  moreover have "of_int m * pow2 (- j) \<le> v * pow2 (- j)"
    using assms(1) pow2_pos [of "- j"] by (intro mult_right_mono) simp_all
  ultimately have "of_int (m * 2 ^ nat (- j)) \<le> v / pow2 j"
    by (simp add: pj)
  then have "m * 2 ^ nat (- j) \<le> round_half_even (v / pow2 j)"
    by (rule round_half_even_mono_lower)
  then have "real_of_int (m * 2 ^ nat (- j)) \<le> of_int (round_half_even (v / pow2 j))"
    by (simp only: of_int_le_iff)
  then have "pow2 j * real_of_int (m * 2 ^ nat (- j)) \<le> pow2 j * of_int (round_half_even (v / pow2 j))"
    using pow2_pos [of j] by (intro mult_left_mono) simp_all
  moreover have "pow2 j * real_of_int (m * 2 ^ nat (- j)) = of_int m"
  proof -
    have "pow2 j * real_of_int (m * 2 ^ nat (- j)) = of_int m * (pow2 j * pow2 (- j))"
      by (simp add: pj)
    then show ?thesis by (simp only: inv mult_1_right)
  qed
  ultimately show ?thesis by (simp only: y)
qed

lemma round_half_even_mono_upper: "v \<le> of_int m \<Longrightarrow> round_half_even v \<le> m"
proof -
  assume a: "v \<le> of_int m"
  show ?thesis
  proof (cases "v = of_int m")
    case True
    then show ?thesis by (simp add: round_half_even_int)
  next
    case False
    with a have "v < of_int m" by simp
    then have "\<lfloor>v\<rfloor> < m" by (simp add: floor_less_iff)
    moreover have "round_half_even v \<le> \<lfloor>v\<rfloor> + 1"
      unfolding round_half_even_def Let_def by auto
    ultimately show ?thesis by linarith
  qed
qed

lemma f64_round_le_int:
  assumes "v \<le> of_int m" "\<bar>v\<bar> < 2 ^ 53" "f64_round v = Finite y"
  shows "y \<le> of_int m"
proof (cases "v = 0")
  case True
  then show ?thesis using assms by (simp add: f64_round_zero)
next
  case False
  define j where "j = max \<lfloor>log 2 \<bar>v\<bar>\<rfloor> (- 1022) - 52"
  have q: "f64_quantum v = pow2 j" by (simp add: f64_quantum_def j_def)
  have "log 2 \<bar>v\<bar> < 53"
    using False assms(2) by (simp add: log_less_iff powr_realpow)
  then have "\<lfloor>log 2 \<bar>v\<bar>\<rfloor> \<le> 52" by (simp add: floor_le_iff)
  then have j0: "j \<le> 0" by (simp add: j_def)
  have "(2::real) ^ 53 \<le> 2 ^ 1024 - 2 ^ 970" by simp
  with assms(2) have fin: "\<not> \<bar>v\<bar> \<ge> 2 ^ 1024 - 2 ^ 970" by linarith
  have y: "y = pow2 j * of_int (round_half_even (v / pow2 j))"
    using assms(3) False fin by (simp add: f64_round_def q)
  have inv: "pow2 j * pow2 (- j) = 1"
    using pow2_add [of j "- j"] by (simp add: pow2_def)
  have pj: "pow2 (- j) = of_int (2 ^ nat (- j))" using j0 by (simp add: pow2_def)
  have "v / pow2 j = v * pow2 (- j)"
    using inv pow2_pos [of j] by (simp add: field_simps)
  moreover have "v * pow2 (- j) \<le> of_int m * pow2 (- j)"
    using assms(1) pow2_pos [of "- j"] by (intro mult_right_mono) simp_all
  ultimately have "v / pow2 j \<le> of_int (m * 2 ^ nat (- j))"
    by (simp add: pj)
  then have "round_half_even (v / pow2 j) \<le> m * 2 ^ nat (- j)"
    by (rule round_half_even_mono_upper)
  then have "real_of_int (round_half_even (v / pow2 j)) \<le> of_int (m * 2 ^ nat (- j))"
    by (simp only: of_int_le_iff)
  then have "pow2 j * of_int (round_half_even (v / pow2 j)) \<le> pow2 j * real_of_int (m * 2 ^ nat (- j))"
    using pow2_pos [of j] by (intro mult_left_mono) simp_all
  moreover have "pow2 j * real_of_int (m * 2 ^ nat (- j)) = of_int m"
  proof -
    have "pow2 j * real_of_int (m * 2 ^ nat (- j)) = of_int m * (pow2 j * pow2 (- j))"
      by (simp add: pj)
    then show ?thesis by (simp only: inv mult_1_right)
  qed
  ultimately show ?thesis by (simp only: y)
qed

lemma f64_round_between_ints:
  assumes "of_int lo \<le> v" "v \<le> of_int hi" "\<bar>v\<bar> < 2 ^ 53"
  shows "\<exists>y. f64_round v = Finite y \<and> of_int lo \<le> y \<and> y \<le> of_int hi"
proof -
  from f64_round_near [OF assms(3)] obtain y where y: "f64_round v = Finite y" by blast
  have "of_int lo \<le> y" using assms(1,3) y by (rule f64_round_ge_int)
  moreover have "y \<le> of_int hi" using assms(2,3) y by (rule f64_round_le_int)
  ultimately show ?thesis using y by blast
qed

subsection \<open>Angle normalization\<close>

text \<open>
  \<^verbatim>\<open>Math.PI * 2\<close> is computed without rounding, and lies between 6 and 7.
\<close>

lemma floor_log2_between:
  assumes "2 ^ n \<le> v" "v < 2 ^ Suc n"
  shows "\<lfloor>log 2 v\<rfloor> = int n"
proof -
  have v: "0 < v" using assms(1) by (rule less_le_trans [rotated]) simp
  have "real n \<le> log 2 v"
    using assms(1) v by (simp add: le_log_iff powr_realpow)
  moreover have "log 2 v < real n + 1"
    using assms(2) v by (simp add: log_less_iff powr_realpow powr_add)
  ultimately show ?thesis by (simp add: floor_eq_iff)
qed

lemma f64_round_normal:
  assumes "2 ^ n \<le> \<bar>v\<bar>" "\<bar>v\<bar> < 2 ^ Suc n" "52 \<le> n" "n < 1023"
  shows "f64_round v = Finite (2 ^ (n - 52) * of_int (round_half_even (v / 2 ^ (n - 52))))"
proof -
  have "(0::real) < 2 ^ n" by simp
  with assms(1) have "0 < \<bar>v\<bar>" by linarith
  then have nz: "v \<noteq> 0" by simp
  have "(2::real) ^ Suc n \<le> 2 ^ 1023" using assms(4) by (intro power_increasing) simp_all
  then have "\<bar>v\<bar> < 2 ^ 1023" using assms(2) by linarith
  then have small: "\<not> \<bar>v\<bar> \<ge> 2 ^ 1024 - 2 ^ 970" by simp
  have "\<lfloor>log 2 \<bar>v\<bar>\<rfloor> = int n" using assms(1,2) by (rule floor_log2_between)
  then have "f64_quantum v = pow2 (int (n - 52))"
    using assms(3) by (simp add: f64_quantum_def of_nat_diff)
  then have q: "f64_quantum v = 2 ^ (n - 52)" by (simp only: pow2_nat)
  show ?thesis using nz small by (simp add: f64_round_def q)
qed

lemma two_pi_bounds: "6 < two_pi" "two_pi < 7"
  by (simp_all add: two_pi_def)

lemma two_pi_f64: "f64_mul Math_PI (Finite 2) = Finite two_pi"
proof -
  let ?v = "884279719003555 / 2 ^ 48 * 2 :: real"
  have v: "?v = two_pi" by (simp add: two_pi_def)
  have nz: "?v \<noteq> 0" by simp
  have small: "\<not> \<bar>?v\<bar> \<ge> 2 ^ 1024 - 2 ^ 970" by simp
  have "\<lfloor>log 2 \<bar>?v\<bar>\<rfloor> = int 2"
    by (rule floor_log2_between) simp_all
  then have q: "f64_quantum ?v = 1 / 2 ^ 50"
    by (simp add: f64_quantum_def pow2_def)
  have "?v / (1 / 2 ^ 50) = of_int 7074237752028440" by simp
  then have r: "round_half_even (?v / (1 / 2 ^ 50)) = 7074237752028440"
    by (simp only: round_half_even_def Let_def floor_of_int) simp
  have "f64_round ?v = Finite (1 / 2 ^ 50 * of_int 7074237752028440)"
    unfolding f64_round_def q r using nz small by (simp only: if_False)
  also have "1 / 2 ^ 50 * of_int 7074237752028440 = two_pi"
    by (simp add: two_pi_def)
  finally show ?thesis
    by (simp add: Math_PI_def)
qed

text \<open>
  For an angle of magnitude at most \<open>2^52\<close> every addition of \<^verbatim>\<open>Math.PI * 2\<close> raises
  the angle by at least 5, and every subtraction lowers it by at least 5, so both loops
  end; the second one keeps the angle from becoming negative.
\<close>

lemma normalizeAngle_up_f64_total:
  "- a \<le> real n * 5 \<Longrightarrow> - (2 ^ 52) \<le> a \<Longrightarrow> a \<le> 2 ^ 52 \<Longrightarrow>
     \<exists>y. normalizeAngle_up_f64 (Finite a) = Some (Finite y) \<and> 0 \<le> y \<and> y \<le> 2 ^ 52"
proof (induction n arbitrary: a)
  case 0
  then have "0 \<le> a" by simp
  then show ?case using 0 by (subst normalizeAngle_up_f64.simps) simp
next
  case (Suc n)
  show ?case
  proof (cases "a < 0")
    case False
    then show ?thesis using Suc.prems by (subst normalizeAngle_up_f64.simps) simp
  next
    case True
    have "\<bar>a + two_pi\<bar> < 2 ^ 53"
      using True Suc.prems(2) two_pi_bounds by (simp add: abs_if) 
    from f64_round_near [OF this] obtain a'
      where a': "f64_round (a + two_pi) = Finite a'" "\<bar>a' - (a + two_pi)\<bar> \<le> 1 / 2"
      by blast
    have step: "f64_add (Finite a) (Finite two_pi) = Finite a'"
      by (simp add: a'(1))
    have up: "a + 5 \<le> a'" using a'(2) two_pi_bounds by linarith
    have lo: "- (2 ^ 52) \<le> a'" using up Suc.prems(2) by linarith
    have "(8::real) \<le> 2 ^ 52" by simp
    then have hi: "a' \<le> 2 ^ 52" using a'(2) True two_pi_bounds by linarith
    have "- a' \<le> real n * 5" using up Suc.prems(1) by (simp add: algebra_simps)
    from Suc.IH [OF this lo hi] obtain y
      where y: "normalizeAngle_up_f64 (Finite a') = Some (Finite y)" "0 \<le> y" "y \<le> 2 ^ 52"
      by blast
    have "normalizeAngle_up_f64 (Finite a) = Some (Finite y)"
      using True y(1) by (subst normalizeAngle_up_f64.simps) (simp add: two_pi_f64 a'(1))
    then show ?thesis using y(2,3) by blast
  qed
qed

lemma normalizeAngle_down_f64_total:
  "a \<le> real n * 5 \<Longrightarrow> 0 \<le> a \<Longrightarrow> a \<le> 2 ^ 52 \<Longrightarrow>
     \<exists>y. normalizeAngle_down_f64 (Finite a) = Some (Finite y) \<and> 0 \<le> y \<and> y < two_pi"
proof (induction n arbitrary: a)
  case 0
  then have "a < two_pi" using two_pi_bounds by simp
  then show ?case using 0
    by (subst normalizeAngle_down_f64.simps) (simp add: two_pi_f64 f64_ge_def)
next
  case (Suc n)
  show ?case
  proof (cases "a < two_pi")
    case True
    then show ?thesis using Suc.prems
      by (subst normalizeAngle_down_f64.simps) (simp add: two_pi_f64 f64_ge_def)
  next
    case False
    have "\<bar>a - two_pi\<bar> < 2 ^ 53"
      using False Suc.prems(3) two_pi_bounds by (simp add: abs_if)
    from f64_round_near [OF this] obtain a'
      where a': "f64_round (a - two_pi) = Finite a'" "\<bar>a' - (a - two_pi)\<bar> \<le> 1 / 2"
        "0 \<le> a - two_pi \<longrightarrow> 0 \<le> a'"
      by blast
    have step: "f64_sub (Finite a) (Finite two_pi) = Finite a'"
      by (simp add: f64_sub_def a'(1))
    have lo: "0 \<le> a'" using a'(3) False by simp
    have down: "a' \<le> a - 5" using a'(2) two_pi_bounds by linarith
    have hi: "a' \<le> 2 ^ 52" using down Suc.prems(3) by linarith
    have "a' \<le> real n * 5" using down Suc.prems(1) by (simp add: algebra_simps)
    from Suc.IH [OF this lo hi] obtain y
      where y: "normalizeAngle_down_f64 (Finite a') = Some (Finite y)" "0 \<le> y" "y < two_pi"
      by blast
    have "normalizeAngle_down_f64 (Finite a) = Some (Finite y)"
      using False y(1)
      by (subst normalizeAngle_down_f64.simps) (simp add: two_pi_f64 f64_ge_def f64_sub_def a'(1))
    then show ?thesis using y(2,3) by blast
  qed
qed

lemma steps_bound: "\<exists>n. v \<le> real n * 5"
proof -
  obtain n :: nat where "v / 5 \<le> real n"
    using real_arch_simple by blast
  then have "v \<le> real n * 5" by simp
  then show ?thesis ..
qed

lemma normalizeAngle_f64_total:
  assumes "\<bar>a\<bar> \<le> 2 ^ 52"
  shows "\<exists>y. normalizeAngle_f64 (Finite a) = Some (Finite y) \<and> 0 \<le> y \<and> y < two_pi"
proof -
  have lo: "- (2 ^ 52) \<le> a" and hi: "a \<le> 2 ^ 52" using assms by (simp_all add: abs_le_iff)
  obtain n where "- a \<le> real n * 5" using steps_bound by blast
  from normalizeAngle_up_f64_total [OF this lo hi] obtain y1
    where y1: "normalizeAngle_up_f64 (Finite a) = Some (Finite y1)" "0 \<le> y1" "y1 \<le> 2 ^ 52"
    by blast
  obtain m where "y1 \<le> real m * 5" using steps_bound by blast
  from normalizeAngle_down_f64_total [OF this y1(2,3)] obtain y2
    where y2: "normalizeAngle_down_f64 (Finite y1) = Some (Finite y2)" "0 \<le> y2" "y2 < two_pi"
    by blast
  have "normalizeAngle_f64 (Finite a) = Some (Finite y2)"
    by (simp add: normalizeAngle_f64_def y1(1) y2(1))
  then show ?thesis using y2(2,3) by blast
qed

text \<open>
  For an angle as large as \<open>- 2^60\<close> the first loop does not end. The binary64 values
  between \<open>- 2^60\<close> and \<open>- 2^59\<close> are \<open>128\<close> apart, so the sum of \<open>- 2^60\<close> and
  \<^verbatim>\<open>Math.PI * 2\<close> rounds back to \<open>- 2^60\<close>, and \<^verbatim>\<open>angle += Math.PI * 2\<close> leaves the
  angle as it was.
\<close>

lemma f64_add_absorbed:
  "f64_add (Finite (- (2 ^ 60))) (Finite two_pi) = Finite (- (2 ^ 60))"
proof -
  let ?v = "- (2 ^ 60) + 884279719003555 / 2 ^ 47 :: real"
  have a: "2 ^ 59 \<le> \<bar>?v\<bar>" "\<bar>?v\<bar> < 2 ^ Suc 59" by simp_all
  have f: "\<lfloor>?v / 2 ^ (59 - 52)\<rfloor> = - (2 ^ 53)"
    by (simp add: floor_eq_iff)
  have d: "?v / 2 ^ (59 - 52) - of_int (- (2 ^ 53)) < 1 / 2" by simp
  have r: "round_half_even (?v / 2 ^ (59 - 52)) = - (2 ^ 53)"
    unfolding round_half_even_def Let_def f using d by (simp only: if_True)
  have "f64_round ?v = Finite (2 ^ (59 - 52) * of_int (- (2 ^ 53)))"
    using f64_round_normal [OF a] by (simp only: r)
  then show ?thesis by (simp add: two_pi_def)
qed

lemma normalizeAngle_up_f64_stuck:
  "normalizeAngle_up_f64 (Finite (- (2 ^ 60))) = None"
proof -
  define x0 where "x0 = Finite (- (2 ^ 60))"
  have step: "f64_add x0 (f64_mul Math_PI (Finite 2)) = x0"
    unfolding x0_def by (simp only: two_pi_f64 f64_add_absorbed)
  have lt: "f64_lt x0 (Finite 0)"
    by (simp add: x0_def)
  have never: "x \<noteq> x0" if "normalizeAngle_up_f64 x = Some y" for x y
  proof (rule normalizeAngle_up_f64.raw_induct [where P = "\<lambda>x y. x \<noteq> x0", OF _ that])
    fix f :: "f64 \<Rightarrow> f64 option" and x y
    assume ih: "\<And>x y. f x = Some y \<Longrightarrow> x \<noteq> x0"
      and unfolded: "(if f64_lt x (Finite 0)
                      then f (f64_add x (f64_mul Math_PI (Finite 2))) else Some x) = Some y"
    show "x \<noteq> x0"
    proof
      assume "x = x0"
      with unfolded have "f x0 = Some y"
        by (simp only: lt if_True step)
      then have "x0 \<noteq> x0" by (rule ih)
      then show False by simp
    qed
  qed
  have "normalizeAngle_up_f64 x0 = None"
  proof (cases "normalizeAngle_up_f64 x0")
    case None
    then show ?thesis .
  next
    case (Some y)
    then have "x0 \<noteq> x0" by (rule never)
    then show ?thesis by simp
  qed
  then show ?thesis by (simp only: x0_def)
qed

text \<open>
  Claim C4: for every finite angle \<open>normalizeAngle\<close> terminates, with a result in
  \<open>[0, 2 * pi)\<close>. The code does not: \<open>- 2^60\<close> is a finite angle, and there the first
  loop adds \<^verbatim>\<open>Math.PI * 2\<close> without changing the angle, so the function never returns
  (\<open>None\<close>).
\<close>

theorem normalizeAngle_f64_diverges:
  "normalizeAngle_f64 (Finite (- (2 ^ 60))) = None"
  unfolding normalizeAngle_f64_def normalizeAngle_up_f64_stuck by simp

subsection \<open>Vectors\<close>

text \<open>The zero vector has the computed length 0 and is returned as the zero vector.\<close>

lemma f64_mul_zero_zero: "f64_mul (Finite 0) (Finite 0) = Finite 0"
  by (simp add: f64_round_zero)

lemma f64_add_zero_zero: "f64_add (Finite 0) (Finite 0) = Finite 0"
  by (simp add: f64_round_zero)

lemma vector_length_f64_zero:
  "vector_length_f64 \<lparr> fx = Finite 0, fy = Finite 0, fz = Finite 0 \<rparr> = Finite 0"
  by (simp add: vector_length_f64_def f64_round_zero)

lemma vector_normalize_f64_zero:
  "vector_normalize_f64 \<lparr> fx = Finite 0, fy = Finite 0, fz = Finite 0 \<rparr> =
     \<lparr> fx = Finite 0, fy = Finite 0, fz = Finite 0 \<rparr>"
  by (simp add: vector_normalize_f64_def vector_length_f64_zero f64_eq_def Let_def)

lemma square_overflows: "f64_mul (Finite (2 ^ 600)) (Finite (2 ^ 600)) = PosInf"
proof -
  have "(2::real) ^ 600 * 2 ^ 600 = 2 ^ 1200"
    by (simp only: power_add [symmetric]) simp
  moreover have "(2::real) ^ 1024 \<le> 2 ^ 1200"
    by (intro power_increasing) simp_all
  ultimately have "f64_round (2 ^ 600 * 2 ^ 600) = PosInf"
    by (simp only: f64_round_overflow)
  then show ?thesis by (simp only: f64_mul.simps)
qed

lemma square_underflows: "f64_mul (Finite (1 / 2 ^ 600)) (Finite (1 / 2 ^ 600)) = Finite 0"
proof -
  have "(1::real) / 2 ^ 600 * (1 / 2 ^ 600) = 1 / 2 ^ 1200"
    by (simp only: power_add [symmetric] times_divide_times_eq mult_1) simp
  moreover have "\<bar>1 / 2 ^ 1200 :: real\<bar> < pow2 (- 1075)"
  proof -
    have "(2::real) ^ 1075 < 2 ^ 1200" by (intro power_strict_increasing) simp_all
    then have "(1::real) / 2 ^ 1200 < 1 / 2 ^ 1075"
      by (intro divide_strict_left_mono) simp_all
    then show ?thesis by (simp add: pow2_def)
  qed
  ultimately have "f64_round (1 / 2 ^ 600 * (1 / 2 ^ 600)) = Finite 0"
    by (simp only: f64_round_underflow)
  then show ?thesis by (simp only: f64_mul.simps)
qed

text \<open>
  Claim C5: \<open>normalize\<close> returns the zero vector for the vector of length zero and a
  vector of length 1 for every vector of nonzero length. The code does not. The vector
  \<open>(2^600, 0, 0)\<close> has the length \<open>2^600\<close>, a Number; but the square \<open>2^1200\<close> is
  beyond the largest Number, so \<^verbatim>\<open>x * x + y * y + z * z\<close> and its square root are
  \<^verbatim>\<open>Infinity\<close>. The guard \<^verbatim>\<open>len === 0\<close> does not apply, every component is divided by
  \<^verbatim>\<open>Infinity\<close>, and the result is the zero vector, of length 0, not a vector of
  length 1.
\<close>

theorem vector_normalize_f64_overflow:
  "vector_length_f64 \<lparr> fx = Finite (2 ^ 600), fy = Finite 0, fz = Finite 0 \<rparr> = PosInf \<and>
   vector_normalize_f64 \<lparr> fx = Finite (2 ^ 600), fy = Finite 0, fz = Finite 0 \<rparr> =
     \<lparr> fx = Finite 0, fy = Finite 0, fz = Finite 0 \<rparr> \<and>
   vector_length_f64 (vector_normalize_f64 \<lparr> fx = Finite (2 ^ 600), fy = Finite 0, fz = Finite 0 \<rparr>) =
     Finite 0"
proof -
  have len: "vector_length_f64 \<lparr> fx = Finite (2 ^ 600), fy = Finite 0, fz = Finite 0 \<rparr> = PosInf"
    unfolding vector_length_f64_def vec3_f64.simps square_overflows f64_mul_zero_zero
    by simp
  have n: "vector_normalize_f64 \<lparr> fx = Finite (2 ^ 600), fy = Finite 0, fz = Finite 0 \<rparr> =
     \<lparr> fx = Finite 0, fy = Finite 0, fz = Finite 0 \<rparr>"
    unfolding vector_normalize_f64_def Let_def len vec3_f64.simps
    by (simp add: f64_eq_def)
  show ?thesis
    unfolding n vector_length_f64_zero len by simp
qed

text \<open>
  A square can also be too small: for \<open>(2^(-600), 0, 0)\<close> the square \<open>2^(-1200)\<close> is
  rounded to zero, the computed length is 0, and the result is the zero vector again.
\<close>

lemma vector_normalize_f64_underflow:
  "vector_length_f64 \<lparr> fx = Finite (1 / 2 ^ 600), fy = Finite 0, fz = Finite 0 \<rparr> = Finite 0 \<and>
   vector_normalize_f64 \<lparr> fx = Finite (1 / 2 ^ 600), fy = Finite 0, fz = Finite 0 \<rparr> =
     \<lparr> fx = Finite 0, fy = Finite 0, fz = Finite 0 \<rparr>"
proof -
  have len: "vector_length_f64 \<lparr> fx = Finite (1 / 2 ^ 600), fy = Finite 0, fz = Finite 0 \<rparr> = Finite 0"
    unfolding vector_length_f64_def vec3_f64.simps square_underflows f64_mul_zero_zero
    by (simp add: f64_round_zero)
  show ?thesis
    unfolding vector_normalize_f64_def Let_def len
    by (simp add: f64_eq_def)
qed

subsection \<open>Ray and sphere\<close>

text \<open>The arithmetic of a direction as short as \<open>2^(-600)\<close>: its square is rounded to zero.\<close>

lemma tiny_facts:
  fixes d :: real
  assumes "d = 1 / 2 ^ 600"
  shows "0 < d"
    and "f64_mul (Finite (- d)) (Finite (- d)) = Finite 0"
    and "f64_mul (Finite (1 / 2)) (Finite (- d)) = Finite (- (d / 2))"
    and "f64_mul (Finite 2) (Finite (- (d / 2))) = Finite (- d)"
    and "f64_round d = Finite d"
proof -
  show "0 < d" by (simp add: assms)
  have sq: "- d * - d = 1 / 2 ^ 600 * (1 / 2 ^ 600)" by (simp add: assms)
  show "f64_mul (Finite (- d)) (Finite (- d)) = Finite 0"
    using square_underflows by (simp only: f64_mul.simps sq)
  have p600: "d = pow2 (- 600)" by (simp add: assms pow2_def)
  have p601: "d / 2 = pow2 (- 601)"
    using pow2_add [of "- 600" "- 1"] by (simp add: p600) (simp add: pow2_def)
  have "1 / 2 * - d = - pow2 (- 601)" by (simp add: p601 [symmetric])
  then have "f64_round (1 / 2 * - d) = Finite (- pow2 (- 601))"
    by (simp only: f64_round_pow2)  
  then show "f64_mul (Finite (1 / 2)) (Finite (- d)) = Finite (- (d / 2))"
    by (simp only: f64_mul.simps p601)
  have "2 * - (d / 2) = - pow2 (- 600)" by (simp add: p600)
  then have "f64_round (2 * - (d / 2)) = Finite (- pow2 (- 600))"
    by (simp only: f64_round_pow2)
  then show "f64_mul (Finite 2) (Finite (- (d / 2))) = Finite (- d)"
    by (simp only: f64_mul.simps p600)
  show "f64_round d = Finite d"
    by (simp only: p600 f64_round_pow2)
qed

text \<open>
  The point \<open>(0, 0, 1/2)\<close> is at the distance \<open>1/2\<close> from the origin, inside the
  sphere of radius 1 around the origin.
\<close>

lemma distance3D_f64_inside:
  "distance3D_f64 \<lparr> fx = Finite 0, fy = Finite 0, fz = Finite (1 / 2) \<rparr>
                  \<lparr> fx = Finite 0, fy = Finite 0, fz = Finite 0 \<rparr> = Finite (1 / 2)"
proof -
  have s: "sqrt (1 / 4) = 1 / 2"
    using real_sqrt_abs [of "1 / 2"] by (simp add: power2_eq_square)
  show ?thesis
    by (simp add: distance3D_f64_def f64_sub_def f64_round_zero f64_round_half
        f64_round_quarter s)
qed

lemma raySphere_f64_tiny_direction:
  fixes d :: real
  assumes d: "d = 1 / 2 ^ 600"
  shows "raySphere_f64 \<lparr> fx = Finite 0, fy = Finite 0, fz = Finite (1 / 2) \<rparr>
                       \<lparr> fx = Finite 0, fy = Finite 0, fz = Finite (- d) \<rparr>
                       \<lparr> fx = Finite 0, fy = Finite 0, fz = Finite 0 \<rparr> (Finite 1) =
         Some \<lparr> hit = True, hit_distance = PosInf,
                hit_point = \<lparr> fx = NaN, fy = NaN, fz = NegInf \<rparr> \<rparr>"
proof -
  note t = tiny_facts [OF d]
  let ?origin = "\<lparr> fx = Finite 0, fy = Finite 0, fz = Finite (1 / 2) \<rparr>"
  let ?dir = "\<lparr> fx = Finite 0, fy = Finite 0, fz = Finite (- d) \<rparr>"
  let ?center = "\<lparr> fx = Finite 0, fy = Finite 0, fz = Finite 0 \<rparr>"
  have oc: "vector_subtract_f64 ?origin ?center = ?origin"
    by (simp add: vector_subtract_f64_def f64_sub_def f64_round_zero f64_round_half)
  have a: "vector_dot_f64 ?dir ?dir = Finite 0"
    unfolding vector_dot_f64_def vec3_f64.simps t(2) by (simp add: f64_round_zero)
  have ocd: "vector_dot_f64 ?origin ?dir = Finite (- (d / 2))"
    unfolding vector_dot_f64_def vec3_f64.simps t(3)
    using t(3) by (simp add: f64_round_zero)
  have b: "f64_mul (Finite 2) (vector_dot_f64 ?origin ?dir) = Finite (- d)"
    unfolding ocd by (rule t(4))
  have occ: "vector_dot_f64 ?origin ?origin = Finite (1 / 4)"
    by (simp add: vector_dot_f64_def f64_round_zero f64_round_quarter)
  have c: "f64_sub (vector_dot_f64 ?origin ?origin) (f64_mul (Finite 1) (Finite 1)) = Finite (- (3 / 4))"
    unfolding occ by (simp add: f64_sub_def f64_round_one f64_round_minus_three_quarters)
  have disc: "f64_sub (f64_mul (Finite (- d)) (Finite (- d)))
                (f64_mul (f64_mul (Finite 4) (Finite 0)) (Finite (- (3 / 4)))) = Finite 0"
    unfolding t(2) by (simp add: f64_sub_def f64_round_zero)
  have num: "f64_sub (f64_neg (Finite (- d))) (f64_sqrt (Finite 0)) = Finite d"
    by (simp add: f64_sub_def f64_round_zero t(5))
  have den: "f64_mul (Finite 2) (Finite 0) = Finite 0"
    by (simp add: f64_round_zero)
  have tt: "f64_div (Finite d) (Finite 0) = PosInf"
    using t(1) by simp
  have pt: "vector_add_f64 ?origin (vector_multiply_f64 ?dir PosInf) =
              \<lparr> fx = NaN, fy = NaN, fz = NegInf \<rparr>"
    using t(1) by (simp add: vector_add_f64_def vector_multiply_f64_def)
  show ?thesis
    unfolding raySphere_f64_def Let_def oc a b c disc num den tt pt
    by (simp add: f64_gt_def)
qed

text \<open>
  Claim C1: for every ray origin strictly inside the sphere and every nonzero direction,
  \<open>raySphere\<close> reports no intersection (\<^verbatim>\<open>null\<close>). The code does not. The origin
  \<open>(0, 0, 1/2)\<close> is strictly inside the sphere of radius 1 around \<open>(0, 0, 0)\<close>, and the
  direction \<open>(0, 0, - 2^(-600))\<close> is not zero. But \<^verbatim>\<open>a = dot(rayDirection, rayDirection)\<close>
  is \<open>2^(-1200)\<close> rounded, which is 0, and so is \<^verbatim>\<open>b * b\<close>; the discriminant is 0, not
  negative, and \<^verbatim>\<open>t = (-b - Math.sqrt(discriminant)) / (2 * a)\<close> is \<open>2^(-600) / 0\<close>,
  which is \<^verbatim>\<open>Infinity\<close>. So \<^verbatim>\<open>t > 0\<close> holds and the code reports a hit, at the distance
  \<^verbatim>\<open>Infinity\<close> and at the point \<^verbatim>\<open>{x: NaN, y: NaN, z: -Infinity}\<close>.
\<close>

theorem raySphere_f64_inside_hit:
  "Finite (- (1 / 2 ^ 600)) \<noteq> Finite 0 \<and>
   f64_lt (distance3D_f64 \<lparr> fx = Finite 0, fy = Finite 0, fz = Finite (1 / 2) \<rparr>
                          \<lparr> fx = Finite 0, fy = Finite 0, fz = Finite 0 \<rparr>) (Finite 1) \<and>
   raySphere_f64 \<lparr> fx = Finite 0, fy = Finite 0, fz = Finite (1 / 2) \<rparr>
                 \<lparr> fx = Finite 0, fy = Finite 0, fz = Finite (- (1 / 2 ^ 600)) \<rparr>
                 \<lparr> fx = Finite 0, fy = Finite 0, fz = Finite 0 \<rparr> (Finite 1) =
     Some \<lparr> hit = True, hit_distance = PosInf,
            hit_point = \<lparr> fx = NaN, fy = NaN, fz = NegInf \<rparr> \<rparr>"
  using raySphere_f64_tiny_direction [of "1 / 2 ^ 600"]
  by (simp only: distance3D_f64_inside f64_lt.simps) simp

subsection \<open>Time format\<close>

text \<open>
  For a number of seconds that is not negative, the quotient by 60 and the remainder are
  not negative, and \<^verbatim>\<open>Math.floor\<close> truncates toward zero. The remainder is exact and
  less than 60.
\<close>

lemma Math_floor_trunc:
  assumes "x = PosInf \<or> x = NaN \<or> (\<exists>y. x = Finite y \<and> 0 \<le> y)"
  shows "Math_floor x = Math_trunc x"
  using assms by (auto simp add: js_trunc_def)

lemma f64_div_60_nonneg:
  assumes "0 \<le> v"
  shows "f64_div (Finite v) (Finite 60) = PosInf \<or>
         (\<exists>y. f64_div (Finite v) (Finite 60) = Finite y \<and> 0 \<le> y)"
  using f64_round_nonneg [of "v / 60"] assms by simp

lemma f64_rem_60:
  assumes "0 \<le> v"
  shows "f64_rem (Finite v) (Finite 60) = Finite (v - 60 * of_int \<lfloor>v / 60\<rfloor>)"
    and "0 \<le> v - 60 * of_int \<lfloor>v / 60\<rfloor>"
    and "v - 60 * of_int \<lfloor>v / 60\<rfloor> < 60"
proof -
  show "f64_rem (Finite v) (Finite 60) = Finite (v - 60 * of_int \<lfloor>v / 60\<rfloor>)"
    using assms by (simp add: js_trunc_def)
  have "of_int \<lfloor>v / 60\<rfloor> \<le> v / 60" "v / 60 < of_int \<lfloor>v / 60\<rfloor> + 1"
    by linarith+
  then show "0 \<le> v - 60 * of_int \<lfloor>v / 60\<rfloor>" "v - 60 * of_int \<lfloor>v / 60\<rfloor> < 60"
    by linarith+
qed

lemma formatTime_floor_is_trunc:
  assumes "f64_ge seconds (Finite 0)"
  shows "Math_floor (f64_div seconds (Finite 60)) = Math_trunc (f64_div seconds (Finite 60))"
    and "Math_floor (f64_rem seconds (Finite 60)) = Math_trunc (f64_rem seconds (Finite 60))"
    and "formatTime_f64 seconds = formatTime_truncating seconds"
proof -
  show m: "Math_floor (f64_div seconds (Finite 60)) = Math_trunc (f64_div seconds (Finite 60))"
  proof (cases seconds)
    case (Finite v)
    with assms have v: "0 \<le> v" by (simp add: f64_ge_def)
    show ?thesis
      unfolding Finite using f64_div_60_nonneg [OF v] by (intro Math_floor_trunc) blast
  next
    case PosInf
    then show ?thesis by simp
  next
    case NegInf
    with assms show ?thesis by (simp add: f64_ge_def)
  next
    case NaN
    with assms show ?thesis by (simp add: f64_ge_def)
  qed
  show s: "Math_floor (f64_rem seconds (Finite 60)) = Math_trunc (f64_rem seconds (Finite 60))"
  proof (cases seconds)
    case (Finite v)
    with assms have v: "0 \<le> v" by (simp add: f64_ge_def)
    show ?thesis
      unfolding Finite using f64_rem_60 [OF v] by (intro Math_floor_trunc) blast
  next
    case PosInf
    then show ?thesis by simp
  next
    case NegInf
    with assms show ?thesis by (simp add: f64_ge_def)
  next
    case NaN
    with assms show ?thesis by (simp add: f64_ge_def)
  qed
  show "formatTime_f64 seconds = formatTime_truncating seconds"
    unfolding formatTime_f64_def formatTime_truncating_def m s ..
qed

text \<open>The digits of a number below 100, and of an integer that is a Number.\<close>

lemma dec_digits_small: "n < 10 \<Longrightarrow> dec_digits n = [dec_char n]"
  by (subst dec_digits.simps) simp

lemma dec_digits_two: "10 \<le> n \<Longrightarrow> n < 100 \<Longrightarrow> dec_digits n = [dec_char (n div 10), dec_char (n mod 10)]"
  by (subst dec_digits.simps) (simp add: dec_digits_small)

lemma Number_toString_int:
  assumes "\<bar>n\<bar> < 2 ^ 53"
  shows "Number_toString (Finite (of_int n)) = Some (toString10 n)"
proof -
  have "real_of_int \<bar>n\<bar> < real_of_int (2 ^ 53)" using assms by (simp only: of_int_less_iff)
  then have "\<bar>real_of_int n\<bar> < 2 ^ 53" by simp
  then show ?thesis by simp
qed

lemma seconds_two_chars:
  assumes "0 \<le> k" "k < 60"
  shows "length (padStart 2 (CHR ''0'') (toString10 k)) = 2"
proof (cases "k < 10")
  case True
  then have "nat k < 10" using assms by simp
  then show ?thesis using assms by (simp add: toString10_def dec_digits_small padStart_def)
next
  case False
  then have "10 \<le> nat k" "nat k < 100" using assms by simp_all
  then show ?thesis using assms by (simp add: toString10_def dec_digits_two padStart_def)
qed

text \<open>
  Below \<open>2^53\<close> seconds both numbers are integers that are printed with all their
  digits. The minutes are the rounded quotient, rounded down; for a whole number of
  seconds the rounding of the quotient does not reach the next integer, so they are the
  integer quotient.
\<close>

lemma formatTime_f64_shape:
  assumes "0 \<le> v" "v < 2 ^ 53"
  shows "\<exists>y. f64_div (Finite v) (Finite 60) = Finite y \<and> 0 \<le> y \<and> y < 2 ^ 53 \<and>
             formatTime_f64 (Finite v) =
               Some (toString10 \<lfloor>y\<rfloor> @ '':'' @
                     padStart 2 (CHR ''0'') (toString10 \<lfloor>v - 60 * of_int \<lfloor>v / 60\<rfloor>\<rfloor>))"
proof -
  have "\<bar>v / 60\<bar> < 2 ^ 53" using assms by simp
  from f64_round_near [OF this] obtain y
    where y: "f64_round (v / 60) = Finite y" "\<bar>y - v / 60\<bar> \<le> 1 / 2" "0 \<le> y"
    using assms(1) by auto
  have d: "f64_div (Finite v) (Finite 60) = Finite y" using y(1) by simp
  have "v / 60 < 2 ^ 53 / 60" using assms(2) by simp
  moreover have "(2::real) ^ 53 / 60 + 1 / 2 \<le> 2 ^ 53 - 1" by simp
  ultimately have y53: "y < 2 ^ 53 - 1" using y(2) by linarith
  have fy: "0 \<le> \<lfloor>y\<rfloor>" using y(3) by simp
  have "\<lfloor>y\<rfloor> < 2 ^ 53"
  proof -
    have "y < of_int (2 ^ 53)" using y53 by simp
    then show ?thesis by (simp only: floor_less_iff)
  qed
  then have m: "Number_toString (Finite (of_int \<lfloor>y\<rfloor>)) = Some (toString10 \<lfloor>y\<rfloor>)"
    using fy by (intro Number_toString_int) simp
  let ?r = "v - 60 * of_int \<lfloor>v / 60\<rfloor>"
  note r = f64_rem_60 [OF assms(1)]
  have "0 \<le> \<lfloor>?r\<rfloor>" using r(2) by simp
  moreover have "\<lfloor>?r\<rfloor> < 60" using r(3) by (simp add: floor_less_iff)
  ultimately have s: "Number_toString (Finite (of_int \<lfloor>?r\<rfloor>)) = Some (toString10 \<lfloor>?r\<rfloor>)"
    by (intro Number_toString_int) simp
  have "formatTime_f64 (Finite v) =
          Some (toString10 \<lfloor>y\<rfloor> @ '':'' @ padStart 2 (CHR ''0'') (toString10 \<lfloor>?r\<rfloor>))"
    unfolding formatTime_f64_def Let_def d r(1) Math_floor.simps m s by simp
  then show ?thesis using d y(3) y53 by auto
qed

lemma floor_quotient_60:
  assumes "0 \<le> v" "v / 60 < pow2 k" "- 1021 \<le> k" "k \<le> 48"
    and "of_int q \<le> v / 60" "v / 60 + pow2 (k - 54) < of_int q + 1"
    and "f64_div (Finite v) (Finite 60) = Finite y"
  shows "\<lfloor>y\<rfloor> = q"
proof -
  have a: "\<bar>v / 60\<bar> < pow2 k" using assms(1,2) by simp
  have "pow2 k \<le> pow2 48" using assms(4) by (rule pow2_mono)
  also have "pow2 48 < 2 ^ 53" by (simp add: pow2_def)
  finally have b: "\<bar>v / 60\<bar> < 2 ^ 53" using a by linarith
  have y: "f64_round (v / 60) = Finite y" using assms(7) by simp
  from f64_round_err [OF a assms(3)] assms(4) y
  have "\<bar>y - v / 60\<bar> \<le> pow2 (k - 54)" by auto
  then have "y < of_int q + 1" using assms(6) by linarith
  moreover have "of_int q \<le> y" using assms(5) b y by (rule f64_round_ge_int)
  ultimately show ?thesis by (intro floor_unique)
qed

lemma formatTime_f64_int:
  assumes "0 \<le> n" "n < 2 ^ 53"
  shows "formatTime_f64 (Finite (of_int n)) =
           Some (toString10 (n div 60) @ '':'' @ padStart 2 (CHR ''0'') (toString10 (n mod 60)))"
proof -
  define v :: real where "v = of_int n"
  have v0: "0 \<le> v" using assms(1) by (simp add: v_def)
  have "real_of_int n < real_of_int (2 ^ 53)" using assms(2) by (simp only: of_int_less_iff)
  then have v53: "v < 2 ^ 53" by (simp add: v_def)
  from formatTime_f64_shape [OF v0 v53] obtain y
    where y: "f64_div (Finite v) (Finite 60) = Finite y"
      and f: "formatTime_f64 (Finite v) =
               Some (toString10 \<lfloor>y\<rfloor> @ '':'' @
                     padStart 2 (CHR ''0'') (toString10 \<lfloor>v - 60 * of_int \<lfloor>v / 60\<rfloor>\<rfloor>))"
    by blast
  have vq: "v = 60 * of_int (n div 60) + of_int (n mod 60)"
  proof -
    have "real_of_int n = real_of_int (60 * (n div 60) + n mod 60)" by simp
    then show ?thesis unfolding v_def by (simp only: of_int_add of_int_mult of_int_numeral)
  qed
  have r0: "(0::real) \<le> of_int (n mod 60)" "real_of_int (n mod 60) \<le> 59"
    by simp_all
  have v60: "v / 60 = of_int (n div 60) + of_int (n mod 60) / 60" using vq by simp
  have p6: "pow2 (48 - 54) = 1 / 64" by (simp add: pow2_def)
  have fl: "\<lfloor>v / 60\<rfloor> = n div 60"
    unfolding v60 using r0 by (intro floor_unique) linarith+
  have "v / 60 < pow2 48" using v53 by (simp add: pow2_def)
  moreover have "of_int (n div 60) \<le> v / 60" unfolding v60 using r0 by linarith
  moreover have "v / 60 + pow2 (48 - 54) < of_int (n div 60) + 1"
    unfolding v60 p6 using r0 by linarith
  ultimately have mins: "\<lfloor>y\<rfloor> = n div 60"
    using v0 y by (intro floor_quotient_60 [where k = 48 and v = v]) simp_all
  have "v - 60 * of_int \<lfloor>v / 60\<rfloor> = of_int (n mod 60)"
    unfolding fl using vq by simp
  then have secs: "\<lfloor>v - 60 * of_int \<lfloor>v / 60\<rfloor>\<rfloor> = n mod 60" by simp
  have "formatTime_f64 (Finite v) =
          Some (toString10 (n div 60) @ '':'' @ padStart 2 (CHR ''0'') (toString10 (n mod 60)))"
    using f by (simp only: mins secs)
  then show ?thesis by (simp only: v_def)
qed


lemma formatTime_f64_125: "formatTime_f64 (Finite 125) = Some ''2:05''"
  using formatTime_f64_int [of 125]
  by (simp add: toString10_def dec_digits_small dec_char_def padStart_def)

lemma formatTime_f64_59: "formatTime_f64 (Finite 59) = Some ''0:59''"
  using formatTime_f64_int [of 59]
  by (simp add: toString10_def dec_digits_small dec_digits_two dec_char_def padStart_def)

lemma formatTime_f64_119_5: "formatTime_f64 (Finite (239 / 2)) = Some ''1:59''"
proof -
  from formatTime_f64_shape [of "239 / 2"] obtain y
    where y: "f64_div (Finite (239 / 2)) (Finite 60) = Finite y"
      and f: "formatTime_f64 (Finite (239 / 2)) =
               Some (toString10 \<lfloor>y\<rfloor> @ '':'' @
                     padStart 2 (CHR ''0'') (toString10 \<lfloor>239 / 2 - 60 * of_int \<lfloor>239 / 2 / 60 :: real\<rfloor> :: real\<rfloor>))"
    by auto
  have mins: "\<lfloor>y\<rfloor> = 1"
    by (rule floor_quotient_60 [where k = 1 and v = "239 / 2", OF _ _ _ _ _ _ y])
       (simp_all add: pow2_def)
  have "\<lfloor>239 / 2 / 60 :: real\<rfloor> = 1" by (intro floor_unique) simp_all
  then have secs: "\<lfloor>239 / 2 - 60 * of_int \<lfloor>239 / 2 / 60 :: real\<rfloor> :: real\<rfloor> = 59"
    by (simp only:) (intro floor_unique, simp_all)
  show ?thesis
    using f unfolding mins secs
    by (simp add: toString10_def dec_digits_small dec_digits_two dec_char_def padStart_def)
qed

text \<open>
  For a negative number of seconds the two components disagree: \<^verbatim>\<open>Math.floor\<close> rounds
  the quotient \<open>- 5 / 60\<close> down to \<open>- 1\<close>, and \<^verbatim>\<open>%\<close> leaves the remainder \<open>- 5\<close>.
\<close>

lemma formatTime_f64_negative: "formatTime_f64 (Finite (- 5)) = Some ''-1:-5''"
proof -
  have "\<bar>- 5 / 60 :: real\<bar> < pow2 (- 3)" by (simp add: pow2_def)
  from f64_round_err [OF this] obtain y
    where y: "f64_round (- 5 / 60) = Finite y" "\<bar>y - (- 5 / 60)\<bar> \<le> pow2 (- 3 - 54)"
    by auto
  have "pow2 (- 3 - 54) \<le> 1 / 100" by (simp add: pow2_def)
  then have "- 1 \<le> y" "y < 0" using y(2) by linarith+
  then have "\<lfloor>y\<rfloor> = - 1" by (intro floor_unique) simp_all
  then have mins: "Math_floor (f64_div (Finite (- 5)) (Finite 60)) = Finite (- 1)"
    using y(1) by simp
  have "js_trunc (- 5 / 60) = 0" by (simp add: js_trunc_def) (intro ceiling_unique, simp_all)
  then have secs: "Math_floor (f64_rem (Finite (- 5)) (Finite 60)) = Finite (- 5)"
    by simp
  have m: "Number_toString (Finite (- 1)) = Some ''-1''"
    using Number_toString_int [of "- 1"]
    by (simp add: toString10_def dec_digits_small dec_char_def)
  have s: "Number_toString (Finite (- 5)) = Some ''-5''"
    using Number_toString_int [of "- 5"]
    by (simp add: toString10_def dec_digits_small dec_char_def)
  show ?thesis
    unfolding formatTime_f64_def Let_def mins secs m s by (simp add: padStart_def)
qed

text \<open>
  Claim C6. For a number of seconds that is not negative, the minutes and the seconds
  that \<open>formatTime\<close> computes with \<^verbatim>\<open>Math.floor\<close> are the quotient and the remainder
  truncated toward zero, and \<open>formatTime\<close> returns what the formatting with both
  components truncated toward zero returns. Below \<open>2^53\<close> seconds
  this is the minutes without padding (the quotient \<^verbatim>\<open>seconds / 60\<close>, rounded down), a
  colon, and the seconds (the remainder, rounded down, between 0 and 59) padded with a
  zero to two characters; for a whole number \<open>n\<close> of seconds the two numbers are
  \<open>n div 60\<close> and \<open>n mod 60\<close>. In particular \<open>formatTime(125) = "2:05"\<close> and
  \<open>formatTime(59) = "0:59"\<close>; and \<open>formatTime(119.5) = "1:59"\<close>, the half second being
  dropped, not rounded.
\<close>

theorem formatTime_f64_format:
  "(f64_ge seconds (Finite 0) \<longrightarrow>
      Math_floor (f64_div seconds (Finite 60)) = Math_trunc (f64_div seconds (Finite 60)) \<and>
      Math_floor (f64_rem seconds (Finite 60)) = Math_trunc (f64_rem seconds (Finite 60)) \<and>
      formatTime_f64 seconds = formatTime_truncating seconds) \<and>
   (0 \<le> v \<and> v < 2 ^ 53 \<longrightarrow>
      (\<exists>y. f64_div (Finite v) (Finite 60) = Finite y \<and> 0 \<le> y \<and>
           formatTime_f64 (Finite v) =
             Some (toString10 \<lfloor>y\<rfloor> @ '':'' @
                   padStart 2 (CHR ''0'') (toString10 \<lfloor>v - 60 * of_int \<lfloor>v / 60\<rfloor>\<rfloor>))) \<and>
      0 \<le> \<lfloor>v - 60 * of_int \<lfloor>v / 60\<rfloor>\<rfloor> \<and> \<lfloor>v - 60 * of_int \<lfloor>v / 60\<rfloor>\<rfloor> \<le> 59 \<and>
      length (padStart 2 (CHR ''0'') (toString10 \<lfloor>v - 60 * of_int \<lfloor>v / 60\<rfloor>\<rfloor>)) = 2) \<and>
   (0 \<le> n \<and> n < 2 ^ 53 \<longrightarrow>
      formatTime_f64 (Finite (of_int n)) =
        Some (toString10 (n div 60) @ '':'' @ padStart 2 (CHR ''0'') (toString10 (n mod 60)))) \<and>
   formatTime_f64 (Finite 125) = Some ''2:05'' \<and>
   formatTime_f64 (Finite 59) = Some ''0:59'' \<and>
   formatTime_f64 (Finite (239 / 2)) = Some ''1:59''"
proof -
  have c1: "f64_ge seconds (Finite 0) \<longrightarrow>
      Math_floor (f64_div seconds (Finite 60)) = Math_trunc (f64_div seconds (Finite 60)) \<and>
      Math_floor (f64_rem seconds (Finite 60)) = Math_trunc (f64_rem seconds (Finite 60)) \<and>
      formatTime_f64 seconds = formatTime_truncating seconds"
    using formatTime_floor_is_trunc [of seconds] by blast
  have c2: "0 \<le> v \<and> v < 2 ^ 53 \<longrightarrow>
      (\<exists>y. f64_div (Finite v) (Finite 60) = Finite y \<and> 0 \<le> y \<and>
           formatTime_f64 (Finite v) =
             Some (toString10 \<lfloor>y\<rfloor> @ '':'' @
                   padStart 2 (CHR ''0'') (toString10 \<lfloor>v - 60 * of_int \<lfloor>v / 60\<rfloor>\<rfloor>))) \<and>
      0 \<le> \<lfloor>v - 60 * of_int \<lfloor>v / 60\<rfloor>\<rfloor> \<and> \<lfloor>v - 60 * of_int \<lfloor>v / 60\<rfloor>\<rfloor> \<le> 59 \<and>
      length (padStart 2 (CHR ''0'') (toString10 \<lfloor>v - 60 * of_int \<lfloor>v / 60\<rfloor>\<rfloor>)) = 2"
  proof
    assume a: "0 \<le> v \<and> v < 2 ^ 53"
    then have v: "0 \<le> v" "v < 2 ^ 53" by simp_all
    let ?s = "\<lfloor>v - 60 * of_int \<lfloor>v / 60\<rfloor>\<rfloor>"
    note r = f64_rem_60 [OF v(1)]
    have s0: "0 \<le> ?s" using r(2) by simp
    have s60: "?s < 60" using r(3) by (simp add: floor_less_iff)
    from s60 have s59: "?s \<le> 59" by simp
    have len: "length (padStart 2 (CHR ''0'') (toString10 ?s)) = 2"
      using s0 s60 by (rule seconds_two_chars)
    from formatTime_f64_shape [OF v] s0 s59 len
    show "(\<exists>y. f64_div (Finite v) (Finite 60) = Finite y \<and> 0 \<le> y \<and>
           formatTime_f64 (Finite v) =
             Some (toString10 \<lfloor>y\<rfloor> @ '':'' @
                   padStart 2 (CHR ''0'') (toString10 ?s))) \<and>
      0 \<le> ?s \<and> ?s \<le> 59 \<and>
      length (padStart 2 (CHR ''0'') (toString10 ?s)) = 2"
      by blast
  qed
  have c3: "0 \<le> n \<and> n < 2 ^ 53 \<longrightarrow>
      formatTime_f64 (Finite (of_int n)) =
        Some (toString10 (n div 60) @ '':'' @ padStart 2 (CHR ''0'') (toString10 (n mod 60)))"
    using formatTime_f64_int [of n] by blast
  show ?thesis
    using c1 c2 c3 formatTime_f64_125 formatTime_f64_59 formatTime_f64_119_5 by blast
qed

theorem formatTime_f64_format_witness:
  "f64_ge (Finite 125) (Finite 0) \<and>
   formatTime_truncating (Finite 125) = Some ''2:05'' \<and>
   (0 :: real) \<le> 239 / 2 \<and> (239 / 2 :: real) < 2 ^ 53 \<and>
   \<lfloor>239 / 2 - 60 * of_int \<lfloor>239 / 2 / 60 :: real\<rfloor> :: real\<rfloor> = 59 \<and>
   (0 :: int) \<le> 3599 \<and> (3599 :: int) < 2 ^ 53 \<and>
   formatTime_f64 (Finite 3599) = Some ''59:59''"
proof -
  have "\<lfloor>239 / 2 / 60 :: real\<rfloor> = 1" by (intro floor_unique) simp_all
  then have secs: "\<lfloor>239 / 2 - 60 * of_int \<lfloor>239 / 2 / 60 :: real\<rfloor> :: real\<rfloor> = 59"
    by (simp only:) (intro floor_unique, simp_all)
  show ?thesis
    using formatTime_f64_format [of "Finite 125" "239 / 2" 3599] secs
    by (auto simp add: f64_ge_def toString10_def dec_digits_two dec_char_def padStart_def)
qed

subsection \<open>Colors\<close>

lemma shl32_exact:
  assumes "k < 32" "- (2 ^ 31) \<le> v * 2 ^ k" "v * 2 ^ k < 2 ^ 31"
  shows "shl32 v k = v * 2 ^ k"
proof -
  have "push_bit k (word_of_int v :: 32 word) = word_of_int (v * 2 ^ k)"
    by (simp add: push_bit_eq_mult)
  then have "shl32 v k = sint (word_of_int (v * 2 ^ k) :: 32 word)"
    using assms(1) by (simp only: shl32_def mod_less)
  also have "\<dots> = signed_take_bit 31 (v * 2 ^ k)"
    by (simp only: sint_sbintrunc') simp
  also have "\<dots> = v * 2 ^ k"
    using assms(2,3) by (intro signed_take_bit_int_eq_self) simp_all
  finally show ?thesis .
qed

lemma hex_digits_step:
  "0 < m \<Longrightarrow> d < 16 \<Longrightarrow> hex_digits (16 * m + d) = hex_digits m @ [hex_char d]"
  by (subst hex_digits.simps) simp

lemma hex_digits_one: "hex_digits (Suc 0) = [CHR ''1'']"
  by (subst hex_digits.simps) (simp add: hex_char_def)

lemma hex_digits_packed:
  assumes "r < 256" "g < 256" "b < 256"
  shows "hex_digits (16777216 + r * 65536 + g * 256 + b) =
           [CHR ''1'', hex_char (r div 16), hex_char (r mod 16),
            hex_char (g div 16), hex_char (g mod 16),
            hex_char (b div 16), hex_char (b mod 16)]"
proof -
  define rh rl gh gl bh bl
    where "rh = r div 16" and "rl = r mod 16" and "gh = g div 16" and "gl = g mod 16"
      and "bh = b div 16" and "bl = b mod 16"
  have split: "r = 16 * rh + rl" "g = 16 * gh + gl" "b = 16 * bh + bl"
    by (simp_all add: rh_def rl_def gh_def gl_def bh_def bl_def)
  have small: "rh < 16" "rl < 16" "gh < 16" "gl < 16" "bh < 16" "bl < 16"
    using assms by (simp_all add: rh_def rl_def gh_def gl_def bh_def bl_def)
  define n1 n2 n3 n4 n5
    where "n1 = 16 * 1 + rh" and "n2 = 16 * n1 + rl" and "n3 = 16 * n2 + gh"
      and "n4 = 16 * n3 + gl" and "n5 = 16 * n4 + bh"
  have pos: "0 < n1" "0 < n2" "0 < n3" "0 < n4" "0 < n5"
    by (simp_all add: n1_def n2_def n3_def n4_def n5_def)
  have "16777216 + r * 65536 + g * 256 + b = 16 * n5 + bl"
    unfolding n5_def n4_def n3_def n2_def n1_def split by (simp add: algebra_simps)
  then have "hex_digits (16777216 + r * 65536 + g * 256 + b) = hex_digits (16 * n5 + bl)"
    by (rule arg_cong)
  also have "\<dots> = hex_digits n5 @ [hex_char bl]"
    using pos(5) small(6) by (rule hex_digits_step)
  also have "hex_digits n5 = hex_digits n4 @ [hex_char bh]"
    unfolding n5_def using pos(4) small(5) by (rule hex_digits_step)
  also have "hex_digits n4 = hex_digits n3 @ [hex_char gl]"
    unfolding n4_def using pos(3) small(4) by (rule hex_digits_step)
  also have "hex_digits n3 = hex_digits n2 @ [hex_char gh]"
    unfolding n3_def using pos(2) small(3) by (rule hex_digits_step)
  also have "hex_digits n2 = hex_digits n1 @ [hex_char rl]"
    unfolding n2_def using pos(1) small(2) by (rule hex_digits_step)
  also have "hex_digits n1 = hex_digits 1 @ [hex_char rh]"
    unfolding n1_def using small(1) by (intro hex_digits_step) simp_all
  finally show ?thesis
    by (simp add: hex_digits_one rh_def rl_def gh_def gl_def bh_def bl_def)
qed

lemma hex_chars_all:
  "list_all (\<lambda>d. is_hex_digit (hex_char d) \<and> hex_value (hex_char d) = int d) [0..<16]"
  by (simp add: upt_rec is_hex_digit_def hex_char_def hex_value_def)

lemma hex_char_digit: "d < 16 \<Longrightarrow> is_hex_digit (hex_char d)"
  using hex_chars_all by (simp add: list_all_iff)

lemma hex_char_value: "d < 16 \<Longrightarrow> hex_value (hex_char d) = int d"
  using hex_chars_all by (simp add: list_all_iff)

lemma parseInt16_pair:
  "h < 16 \<Longrightarrow> l < 16 \<Longrightarrow> parseInt16 [hex_char h, hex_char l] = int (16 * h + l)"
  by (simp add: parseInt16_def hex_char_digit hex_char_value)

lemma rgbToHex_digits:
  assumes "0 \<le> r" "r \<le> 255" "0 \<le> g" "g \<le> 255" "0 \<le> b" "b \<le> 255"
  shows "rgbToHex r g b =
           [CHR ''#'', hex_char (nat r div 16), hex_char (nat r mod 16),
            hex_char (nat g div 16), hex_char (nat g mod 16),
            hex_char (nat b div 16), hex_char (nat b mod 16)]"
proof -
  have s: "shl32 1 24 = 16777216" "shl32 r 16 = r * 65536" "shl32 g 8 = g * 256"
    using assms by (simp_all add: shl32_exact)
  have n: "nat (16777216 + r * 65536 + g * 256 + b)
          = 16777216 + nat r * 65536 + nat g * 256 + nat b"
    using assms by linarith
  have lt: "nat r < 256" "nat g < 256" "nat b < 256"
    using assms by simp_all
  have "toString16 (16777216 + r * 65536 + g * 256 + b)
          = hex_digits (nat (16777216 + r * 65536 + g * 256 + b))"
    using assms by (simp add: toString16_def)
  also have "\<dots> = hex_digits (16777216 + nat r * 65536 + nat g * 256 + nat b)"
    by (simp only: n)
  also have "\<dots> =
           [CHR ''1'', hex_char (nat r div 16), hex_char (nat r mod 16),
            hex_char (nat g div 16), hex_char (nat g mod 16),
            hex_char (nat b div 16), hex_char (nat b mod 16)]"
    using lt by (rule hex_digits_packed)
  finally have "toString16 (16777216 + r * 65536 + g * 256 + b) =
           [CHR ''1'', hex_char (nat r div 16), hex_char (nat r mod 16),
            hex_char (nat g div 16), hex_char (nat g mod 16),
            hex_char (nat b div 16), hex_char (nat b mod 16)]" .
  then show ?thesis
    by (simp add: rgbToHex_def s)
qed

text \<open>
  Claim C3. For integers \<open>r\<close>, \<open>g\<close>, \<open>b\<close> between 0 and 255, \<open>hexToRgb (rgbToHex r g b)\<close>
  succeeds and returns the record of \<open>r\<close>, \<open>g\<close> and \<open>b\<close>.
\<close>

theorem hexToRgb_rgbToHex:
  assumes "0 \<le> r" "r \<le> 255" "0 \<le> g" "g \<le> 255" "0 \<le> b" "b \<le> 255"
  shows "hexToRgb (rgbToHex r g b) = Some \<lparr> rgb_r = r, rgb_g = g, rgb_b = b \<rparr>"
proof -
  have lt: "nat r div 16 < 16" "nat r mod 16 < 16" "nat g div 16 < 16" "nat g mod 16 < 16"
    "nat b div 16 < 16" "nat b mod 16 < 16"
    using assms by simp_all
  have recomb: "int (16 * (nat r div 16) + nat r mod 16) = r"
    "int (16 * (nat g div 16) + nat g mod 16) = g"
    "int (16 * (nat b div 16) + nat b mod 16) = b"
    using assms by simp_all
  show ?thesis
    unfolding rgbToHex_digits [OF assms] hexToRgb_def
    using lt assms by (simp add: hex_char_digit parseInt16_pair recomb del: of_nat_add of_nat_mult)
qed

theorem hexToRgb_rgbToHex_witness:
  "(0::int) \<le> 255 \<and> (255::int) \<le> 255 \<and> (0::int) \<le> 0 \<and> (0::int) \<le> 255 \<and>
   (0::int) \<le> 128 \<and> (128::int) \<le> 255 \<and>
   rgbToHex 255 0 128 = ''#ff0080'' \<and>
   hexToRgb ''#ff0080'' = Some \<lparr> rgb_r = 255, rgb_g = 0, rgb_b = 128 \<rparr>"
proof -
  have hex: "rgbToHex 255 0 128 = ''#ff0080''"
    by (simp add: rgbToHex_digits hex_char_def)
  from hexToRgb_rgbToHex [of 255 0 128] hex show ?thesis by simp
qed

text \<open>
  Claim C7. When \<open>hexToRgb\<close> fails on either color, \<open>lerpColor\<close> returns its first
  argument unchanged, whatever the factor.
\<close>

theorem lerpColor_unparsed:
  "hexToRgb color1 = None \<or> hexToRgb color2 = None \<Longrightarrow> lerpColor color1 color2 factor = color1"
  by (auto simp add: lerpColor_def split: option.splits)

theorem lerpColor_unparsed_witness:
  "hexToRgb ''red'' = None \<and> hexToRgb ''#12345'' = None \<and>
   lerpColor ''red'' ''#00ff00'' (1 / 2) = ''red'' \<and>
   lerpColor ''#00ff00'' ''#12345'' (1 / 2) = ''#00ff00''"
proof -
  have a: "hexToRgb ''red'' = None" "hexToRgb ''#12345'' = None"
    by (simp_all add: hexToRgb_def)
  show ?thesis
    using a lerpColor_unparsed [of "''red''" "''#00ff00''" "1 / 2"]
      lerpColor_unparsed [of "''#00ff00''" "''#12345''" "1 / 2"]
    by simp
qed

subsection \<open>The table's effective values\<close>

lemma worldSize_GAME_CONSTANTS: "worldSize GAME_CONSTANTS = 200"
  by (simp add: worldSize_def GAME_CONSTANTS_def or_default_def)


lemma Math_round_nearest: "\<bar>of_int (Math_round v) - v\<bar> \<le> 1 / 2"
  unfolding Math_round_def by linarith


lemma calculateDamage_f64_table:
  "calculateDamage_f64 (Some GAME_CONSTANTS) baseDamage distance =
     (if f64_le distance (Finite 50) then baseDamage
      else if f64_ge distance (Finite 100) then Finite 0
      else Math_round_f64
             (f64_mul baseDamage
                (f64_sub (Finite 1) (f64_div (f64_sub distance (Finite 50)) (Finite 50)))))"
proof -
  have "f64_sub (Finite 100) (Finite 50) = Finite 50"
    by (simp add: f64_sub_finite f64_round_numeral)
  then show ?thesis
    by (simp add: calculateDamage_f64_def GAME_CONSTANTS_def or_default_def Let_def)
qed

subsection \<open>Damage falloff\<close>










text \<open>
  The computation on Numbers obeys the same bounds, for a base damage that is a whole
  number below \<open>2^53\<close>: the factor is rounded to a value between 0 and 1, and the product
  to one between 0 and the base damage.
\<close>

lemma calculateDamage_f64_bound:
  assumes "0 \<le> n" "n < 2 ^ 53"
  shows "\<exists>r. calculateDamage_f64 (Some GAME_CONSTANTS) (Finite (of_int n)) (Finite d) = Finite (of_int r) \<and>
             0 \<le> r \<and> r \<le> n"
proof (cases "50 < d \<and> d < 100")
  case False
  then have "calculateDamage_f64 (Some GAME_CONSTANTS) (Finite (of_int n)) (Finite d) = Finite (of_int n) \<or>
             calculateDamage_f64 (Some GAME_CONSTANTS) (Finite (of_int n)) (Finite d) = Finite (of_int 0)"
    by (auto simp add: calculateDamage_f64_table f64_le_def f64_ge_def)
  then show ?thesis using assms(1) by auto
next
  case True
  define b :: real where "b = of_int n"
  have b0: "0 \<le> b" using assms(1) by (simp add: b_def)
  have "real_of_int n < real_of_int (2 ^ 53)" using assms(2) by (simp only: of_int_less_iff)
  then have b53: "b < 2 ^ 53" by (simp add: b_def)
  have "of_int 0 \<le> d - 50" "d - 50 \<le> of_int 50" "\<bar>d - 50\<bar> < 2 ^ 53" using True by simp_all
  from f64_round_between_ints [OF this] obtain x1
    where x1: "f64_round (d - 50) = Finite x1" "0 \<le> x1" "x1 \<le> 50" by auto
  have "of_int 0 \<le> x1 / 50" "x1 / 50 \<le> of_int 1" "\<bar>x1 / 50\<bar> < 2 ^ 53" using x1(2,3) by simp_all
  from f64_round_between_ints [OF this] obtain x2
    where x2: "f64_round (x1 / 50) = Finite x2" "0 \<le> x2" "x2 \<le> 1" by auto
  have "of_int 0 \<le> 1 - x2" "1 - x2 \<le> of_int 1" "\<bar>1 - x2\<bar> < 2 ^ 53" using x2(2,3) by simp_all
  from f64_round_between_ints [OF this] obtain f
    where f: "f64_round (1 - x2) = Finite f" "0 \<le> f" "f \<le> 1" by auto
  have bf0: "0 \<le> b * f" using b0 f(2) by (rule mult_nonneg_nonneg)
  have bf1: "b * f \<le> b" using mult_left_mono [OF f(3) b0] by simp
  have "of_int 0 \<le> b * f" "b * f \<le> of_int n" "\<bar>b * f\<bar> < 2 ^ 53"
    using bf0 bf1 b53 by (simp_all add: b_def)
  from f64_round_between_ints [OF this] obtain p
    where p: "f64_round (b * f) = Finite p" "0 \<le> p" "p \<le> of_int n" by auto
  have le: "\<not> f64_le (Finite d) (Finite 50)" "\<not> f64_ge (Finite d) (Finite 100)"
    using True by (simp_all add: f64_le_def f64_ge_def)
  have eq: "calculateDamage_f64 (Some GAME_CONSTANTS) (Finite b) (Finite d) = Finite (of_int \<lfloor>p + 1 / 2\<rfloor>)"
    unfolding calculateDamage_f64_table using le
    by (simp add: f64_sub_finite x1(1) x2(1) f(1) p(1))
  have r0: "0 \<le> \<lfloor>p + 1 / 2\<rfloor>" using p(2) by simp
  have "p + 1 / 2 < of_int (n + 1)" using p(3) by simp
  then have "\<lfloor>p + 1 / 2\<rfloor> < n + 1" by (simp only: floor_less_iff)
  then have r1: "\<lfloor>p + 1 / 2\<rfloor> \<le> n" by simp
  show ?thesis using eq r0 r1 unfolding b_def by blast
qed

subsection \<open>World bounds\<close>

text \<open>
  The half size: 100 with the table of \<^verbatim>\<open>constants.js\<close>; the half of \<^verbatim>\<open>WORLD.SIZE\<close>
  when the table has one that is not zero, and 100 again when it has none.
\<close>

lemma halfSize_GAME_CONSTANTS:
  "f64_div (Finite (worldSize GAME_CONSTANTS)) (Finite 2) = Finite 100"
  by (simp add: worldSize_GAME_CONSTANTS f64_round_numeral)

lemma worldSize_table:
  "WORLD gc = Some w \<Longrightarrow> SIZE w = Some s \<Longrightarrow> s \<noteq> 0 \<Longrightarrow> worldSize gc = s"
  "WORLD gc = None \<Longrightarrow> worldSize gc = 200"
  "WORLD gc = Some w \<Longrightarrow> SIZE w = None \<Longrightarrow> worldSize gc = 200"
  "WORLD gc = Some w \<Longrightarrow> SIZE w = Some 0 \<Longrightarrow> worldSize gc = 200"
  by (simp_all add: worldSize_def or_default_def)

text \<open>
  \<open>clamp\<close> between \<open>- h\<close> and \<open>h\<close>: a value within the bounds is kept, a value below
  becomes \<open>- h\<close> and a value above becomes \<open>h\<close>, infinities included; NaN stays NaN.
\<close>

lemma clamp_f64_cases:
  assumes "0 \<le> h"
  shows "clamp_f64 (Finite v) (Finite (- h)) (Finite h) =
           Finite (if v < - h then - h else if h < v then h else v)"
    and "clamp_f64 PosInf (Finite (- h)) (Finite h) = Finite h"
    and "clamp_f64 NegInf (Finite (- h)) (Finite h) = Finite (- h)"
  using assms by (auto simp add: clamp_f64_def Math_max_def Math_min_def)

lemma clamp_f64_NaN: "clamp_f64 NaN lo hi = NaN"
  by (simp add: clamp_f64_def Math_max_def Math_min_def)

lemma clamp_f64_in_range:
  assumes "0 \<le> h" "x \<noteq> NaN"
  shows "f64_ge (clamp_f64 x (Finite (- h)) (Finite h)) (Finite (- h))"
    and "f64_le (clamp_f64 x (Finite (- h)) (Finite h)) (Finite h)"
  using assms by (cases x; simp add: clamp_f64_cases f64_ge_def f64_le_def)+

lemma clampToBounds_f64_table:
  "clampToBounds_f64 (Some gc) position =
     \<lparr> fx = clamp_f64 (fx position) (f64_neg (f64_div (Finite (worldSize gc)) (Finite 2)))
                     (f64_div (Finite (worldSize gc)) (Finite 2)),
       fy = fy position,
       fz = clamp_f64 (fz position) (f64_neg (f64_div (Finite (worldSize gc)) (Finite 2)))
                     (f64_div (Finite (worldSize gc)) (Finite 2)) \<rparr>"
  by (simp add: clampToBounds_f64_def Let_def)

text \<open>
  On coordinates that are finite, \<open>clampToBounds\<close> on Numbers and \<open>clampToBounds\<close> on
  real numbers return the same.
\<close>

lemma clampToBounds_f64_real:
  "clampToBounds_f64 (Some GAME_CONSTANTS) \<lparr> fx = Finite x, fy = Finite y, fz = Finite z \<rparr> =
     \<lparr> fx = Finite (vx (clampToBounds (Some GAME_CONSTANTS) \<lparr> vx = x, vy = y, vz = z \<rparr>)),
       fy = Finite (vy (clampToBounds (Some GAME_CONSTANTS) \<lparr> vx = x, vy = y, vz = z \<rparr>)),
       fz = Finite (vz (clampToBounds (Some GAME_CONSTANTS) \<lparr> vx = x, vy = y, vz = z \<rparr>)) \<rparr>"
  unfolding clampToBounds_f64_table halfSize_GAME_CONSTANTS
  by (simp add: clamp_f64_cases clampToBounds_def worldSize_GAME_CONSTANTS clamp_def Let_def)

text \<open>
  Claim C8, as stated: for every position record, with the constants table present, \<open>y\<close>
  is returned as it is and \<open>x\<close> and \<open>z\<close> are clamped to
  \<open>[- worldSize / 2, worldSize / 2]\<close>. Not for every record: a coordinate that is NaN is
  returned as NaN (\<^verbatim>\<open>Math.max\<close> and \<^verbatim>\<open>Math.min\<close> return NaN for it), which is not
  between \<open>-100\<close> and \<open>100\<close>.
\<close>

theorem clampToBounds_f64_NaN:
  "clampToBounds_f64 (Some GAME_CONSTANTS) \<lparr> fx = NaN, fy = Finite 0, fz = Finite 0 \<rparr> =
     \<lparr> fx = NaN, fy = Finite 0, fz = Finite 0 \<rparr> \<and>
   \<not> f64_ge NaN (Finite (- 100)) \<and> \<not> f64_le NaN (Finite 100) \<and>
   \<not> (\<forall>position.
         f64_ge (fx (clampToBounds_f64 (Some GAME_CONSTANTS) position)) (Finite (- 100)) \<and>
         f64_le (fx (clampToBounds_f64 (Some GAME_CONSTANTS) position)) (Finite 100))"
proof -
  have e: "clampToBounds_f64 (Some GAME_CONSTANTS) \<lparr> fx = NaN, fy = Finite 0, fz = Finite 0 \<rparr> =
     \<lparr> fx = NaN, fy = Finite 0, fz = Finite 0 \<rparr>"
    unfolding clampToBounds_f64_table halfSize_GAME_CONSTANTS
    by (simp add: clamp_f64_NaN clamp_f64_cases)
  have n: "\<not> f64_ge NaN (Finite (- 100))" "\<not> f64_le NaN (Finite 100)"
    by (simp_all add: f64_ge_def f64_le_def)
  have "\<not> (\<forall>position.
         f64_ge (fx (clampToBounds_f64 (Some GAME_CONSTANTS) position)) (Finite (- 100)) \<and>
         f64_le (fx (clampToBounds_f64 (Some GAME_CONSTANTS) position)) (Finite 100))"
  proof
    assume "\<forall>position.
         f64_ge (fx (clampToBounds_f64 (Some GAME_CONSTANTS) position)) (Finite (- 100)) \<and>
         f64_le (fx (clampToBounds_f64 (Some GAME_CONSTANTS) position)) (Finite 100)"
    then have "f64_ge (fx (clampToBounds_f64 (Some GAME_CONSTANTS)
                  \<lparr> fx = NaN, fy = Finite 0, fz = Finite 0 \<rparr>)) (Finite (- 100))"
      by blast
    then show False unfolding e using n(1) by simp
  qed
  with e n show ?thesis by blast
qed

text \<open>
  Claim C8, amended. With a constants table present, \<open>clampToBounds\<close> returns the
  input's \<open>y\<close> as it is, whatever it is, and \<open>x\<close> and \<open>z\<close> passed through \<open>clamp\<close> with
  the bounds \<open>- h\<close> and \<open>h\<close>, where \<open>h\<close> is the half of the table's \<^verbatim>\<open>WORLD.SIZE\<close>, and
  100 when the table has no \<^verbatim>\<open>WORLD\<close>, no \<^verbatim>\<open>SIZE\<close> or the size 0; with the table of
  \<^verbatim>\<open>constants.js\<close> the bounds are \<open>-100\<close> and \<open>100\<close>. For bounds \<open>- b\<close> and \<open>b\<close> with
  \<open>0 \<le> b\<close>, \<open>clamp\<close> keeps a coordinate that lies between them, replaces a smaller one
  (also \<^verbatim>\<open>-Infinity\<close>) by \<open>- b\<close> and a larger one (also \<^verbatim>\<open>Infinity\<close>) by \<open>b\<close>, so that
  every coordinate that is not NaN ends between the bounds; a coordinate that is NaN
  stays NaN. Without a constants table the position is returned as it is.
\<close>

theorem clampToBounds_f64_clamps:
  "fy (clampToBounds_f64 (Some gc) position) = fy position \<and>
   (WORLD gc = Some w \<and> SIZE w = Some s \<and> s \<noteq> 0 \<and>
    f64_div (Finite s) (Finite 2) = Finite h \<longrightarrow>
      fx (clampToBounds_f64 (Some gc) position) = clamp_f64 (fx position) (Finite (- h)) (Finite h) \<and>
      fz (clampToBounds_f64 (Some gc) position) = clamp_f64 (fz position) (Finite (- h)) (Finite h)) \<and>
   (WORLD gc = None \<or> (\<exists>w. WORLD gc = Some w \<and> (SIZE w = None \<or> SIZE w = Some 0)) \<longrightarrow>
      fx (clampToBounds_f64 (Some gc) position) = clamp_f64 (fx position) (Finite (- 100)) (Finite 100) \<and>
      fz (clampToBounds_f64 (Some gc) position) = clamp_f64 (fz position) (Finite (- 100)) (Finite 100)) \<and>
   fx (clampToBounds_f64 (Some GAME_CONSTANTS) position) =
     clamp_f64 (fx position) (Finite (- 100)) (Finite 100) \<and>
   fz (clampToBounds_f64 (Some GAME_CONSTANTS) position) =
     clamp_f64 (fz position) (Finite (- 100)) (Finite 100) \<and>
   (0 \<le> b \<longrightarrow>
      clamp_f64 (Finite v) (Finite (- b)) (Finite b) =
        Finite (if v < - b then - b else if b < v then b else v) \<and>
      clamp_f64 PosInf (Finite (- b)) (Finite b) = Finite b \<and>
      clamp_f64 NegInf (Finite (- b)) (Finite b) = Finite (- b) \<and>
      (x \<noteq> NaN \<longrightarrow> f64_ge (clamp_f64 x (Finite (- b)) (Finite b)) (Finite (- b)) \<and>
                     f64_le (clamp_f64 x (Finite (- b)) (Finite b)) (Finite b))) \<and>
   clamp_f64 NaN lo hi = NaN \<and>
   clampToBounds_f64 None position = position"
proof -
  have c1: "fy (clampToBounds_f64 (Some gc) position) = fy position"
    by (simp add: clampToBounds_f64_table)
  have c2: "WORLD gc = Some w \<and> SIZE w = Some s \<and> s \<noteq> 0 \<and>
    f64_div (Finite s) (Finite 2) = Finite h \<longrightarrow>
      fx (clampToBounds_f64 (Some gc) position) = clamp_f64 (fx position) (Finite (- h)) (Finite h) \<and>
      fz (clampToBounds_f64 (Some gc) position) = clamp_f64 (fz position) (Finite (- h)) (Finite h)"
  proof
    assume a: "WORLD gc = Some w \<and> SIZE w = Some s \<and> s \<noteq> 0 \<and>
      f64_div (Finite s) (Finite 2) = Finite h"
    then have "worldSize gc = s" by (intro worldSize_table(1) [of gc w s]) simp_all
    with a have "f64_div (Finite (worldSize gc)) (Finite 2) = Finite h" by simp
    then show "fx (clampToBounds_f64 (Some gc) position) = clamp_f64 (fx position) (Finite (- h)) (Finite h) \<and>
      fz (clampToBounds_f64 (Some gc) position) = clamp_f64 (fz position) (Finite (- h)) (Finite h)"
      unfolding clampToBounds_f64_table by simp
  qed
  have c3: "WORLD gc = None \<or> (\<exists>w. WORLD gc = Some w \<and> (SIZE w = None \<or> SIZE w = Some 0)) \<longrightarrow>
      fx (clampToBounds_f64 (Some gc) position) = clamp_f64 (fx position) (Finite (- 100)) (Finite 100) \<and>
      fz (clampToBounds_f64 (Some gc) position) = clamp_f64 (fz position) (Finite (- 100)) (Finite 100)"
  proof
    assume "WORLD gc = None \<or> (\<exists>w. WORLD gc = Some w \<and> (SIZE w = None \<or> SIZE w = Some 0))"
    then have "worldSize gc = 200" using worldSize_table(2-4) by blast
    then have "f64_div (Finite (worldSize gc)) (Finite 2) = Finite 100"
      by (simp add: f64_round_numeral)
    then show "fx (clampToBounds_f64 (Some gc) position) = clamp_f64 (fx position) (Finite (- 100)) (Finite 100) \<and>
      fz (clampToBounds_f64 (Some gc) position) = clamp_f64 (fz position) (Finite (- 100)) (Finite 100)"
      unfolding clampToBounds_f64_table by simp
  qed
  have c4: "fx (clampToBounds_f64 (Some GAME_CONSTANTS) position) =
              clamp_f64 (fx position) (Finite (- 100)) (Finite 100)"
    and c5: "fz (clampToBounds_f64 (Some GAME_CONSTANTS) position) =
              clamp_f64 (fz position) (Finite (- 100)) (Finite 100)"
    unfolding clampToBounds_f64_table halfSize_GAME_CONSTANTS by simp_all
  have c6: "0 \<le> b \<longrightarrow>
      clamp_f64 (Finite v) (Finite (- b)) (Finite b) =
        Finite (if v < - b then - b else if b < v then b else v) \<and>
      clamp_f64 PosInf (Finite (- b)) (Finite b) = Finite b \<and>
      clamp_f64 NegInf (Finite (- b)) (Finite b) = Finite (- b) \<and>
      (x \<noteq> NaN \<longrightarrow> f64_ge (clamp_f64 x (Finite (- b)) (Finite b)) (Finite (- b)) \<and>
                     f64_le (clamp_f64 x (Finite (- b)) (Finite b)) (Finite b))"
    using clamp_f64_cases(1) [of b v] clamp_f64_cases(2,3) [of b] clamp_f64_in_range [of b x]
    by blast
  have c7: "clamp_f64 NaN lo hi = NaN" by (rule clamp_f64_NaN)
  have c8: "clampToBounds_f64 None position = position"
    by (simp add: clampToBounds_f64_def)
  show ?thesis using c1 c2 c3 c4 c5 c6 c7 c8 by blast
qed


theorem clampToBounds_f64_clamps_witness:
  "WORLD (GAME_CONSTANTS \<lparr> WORLD := Some \<lparr> SIZE = Some 50, GRAVITY = 98 / 10, GROUND_LEVEL = 0 \<rparr> \<rparr>) =
     Some \<lparr> SIZE = Some 50, GRAVITY = 98 / 10, GROUND_LEVEL = 0 \<rparr> \<and>
   SIZE \<lparr> SIZE = Some 50, GRAVITY = 98 / 10, GROUND_LEVEL = 0 \<rparr> = Some 50 \<and> (50 :: real) \<noteq> 0 \<and>
   f64_div (Finite 50) (Finite 2) = Finite 25 \<and> (0 :: real) \<le> 25 \<and>
   fx (clampToBounds_f64
         (Some (GAME_CONSTANTS \<lparr> WORLD := Some \<lparr> SIZE = Some 50, GRAVITY = 98 / 10, GROUND_LEVEL = 0 \<rparr> \<rparr>))
         \<lparr> fx = Finite 500, fy = Finite 3, fz = Finite (- 700) \<rparr>) = Finite 25 \<and>
   fy (clampToBounds_f64
         (Some (GAME_CONSTANTS \<lparr> WORLD := Some \<lparr> SIZE = Some 50, GRAVITY = 98 / 10, GROUND_LEVEL = 0 \<rparr> \<rparr>))
         \<lparr> fx = Finite 500, fy = Finite 3, fz = Finite (- 700) \<rparr>) = Finite 3 \<and>
   fz (clampToBounds_f64
         (Some (GAME_CONSTANTS \<lparr> WORLD := Some \<lparr> SIZE = Some 50, GRAVITY = 98 / 10, GROUND_LEVEL = 0 \<rparr> \<rparr>))
         \<lparr> fx = Finite 500, fy = Finite 3, fz = Finite (- 700) \<rparr>) = Finite (- 25) \<and>
   WORLD (GAME_CONSTANTS \<lparr> WORLD := None \<rparr>) = None \<and> (0 :: real) \<le> 100 \<and> PosInf \<noteq> NaN \<and>
   fx (clampToBounds_f64 (Some (GAME_CONSTANTS \<lparr> WORLD := None \<rparr>))
         \<lparr> fx = Finite 7, fy = NaN, fz = PosInf \<rparr>) = Finite 7 \<and>
   fy (clampToBounds_f64 (Some (GAME_CONSTANTS \<lparr> WORLD := None \<rparr>))
         \<lparr> fx = Finite 7, fy = NaN, fz = PosInf \<rparr>) = NaN \<and>
   fz (clampToBounds_f64 (Some (GAME_CONSTANTS \<lparr> WORLD := None \<rparr>))
         \<lparr> fx = Finite 7, fy = NaN, fz = PosInf \<rparr>) = Finite 100 \<and>
   f64_le (clamp_f64 PosInf (Finite (- 100)) (Finite 100)) (Finite 100)"
proof -
  have h: "f64_div (Finite 50) (Finite 2) = Finite 25"
    by (simp add: f64_round_numeral)
  show ?thesis
    using h
      clampToBounds_f64_clamps
        [where gc = "GAME_CONSTANTS \<lparr> WORLD := Some \<lparr> SIZE = Some 50, GRAVITY = 98 / 10, GROUND_LEVEL = 0 \<rparr> \<rparr>"
           and position = "\<lparr> fx = Finite 500, fy = Finite 3, fz = Finite (- 700) \<rparr>"
           and w = "\<lparr> SIZE = Some 50, GRAVITY = 98 / 10, GROUND_LEVEL = 0 \<rparr>"
           and s = 50 and h = 25 and b = 25 and v = 500 and x = PosInf and lo = NaN and hi = NaN]
      clampToBounds_f64_clamps
        [where gc = "GAME_CONSTANTS \<lparr> WORLD := Some \<lparr> SIZE = Some 50, GRAVITY = 98 / 10, GROUND_LEVEL = 0 \<rparr> \<rparr>"
           and position = "\<lparr> fx = Finite 500, fy = Finite 3, fz = Finite (- 700) \<rparr>"
           and w = "\<lparr> SIZE = Some 50, GRAVITY = 98 / 10, GROUND_LEVEL = 0 \<rparr>"
           and s = 50 and h = 25 and b = 25 and v = "- 700" and x = PosInf and lo = NaN and hi = NaN]
      clampToBounds_f64_clamps
        [where gc = "GAME_CONSTANTS \<lparr> WORLD := None \<rparr>"
           and position = "\<lparr> fx = Finite 7, fy = NaN, fz = PosInf \<rparr>"
           and b = 100 and v = 7 and x = PosInf and lo = NaN and hi = NaN]
    by auto
qed

text \<open>
  Claim C9. With the table of \<^verbatim>\<open>constants.js\<close> present, a clamped position is in bounds,
  for every position; the same holds for any table whose world size is not negative.
\<close>

theorem isInBounds_clampToBounds:
  "isInBounds (Some GAME_CONSTANTS) (clampToBounds (Some GAME_CONSTANTS) position) \<and>
   (0 \<le> worldSize gc \<longrightarrow> isInBounds (Some gc) (clampToBounds (Some gc) position))"
  by (simp add: isInBounds_def clampToBounds_def worldSize_GAME_CONSTANTS clamp_def Let_def) linarith

theorem isInBounds_clampToBounds_witness:
  "0 \<le> worldSize GAME_CONSTANTS \<and>
   isInBounds (Some GAME_CONSTANTS) (clampToBounds (Some GAME_CONSTANTS) \<lparr>vx = 500, vy = 3, vz = - 700\<rparr>) \<and>
   clampToBounds (Some GAME_CONSTANTS) \<lparr>vx = 500, vy = 3, vz = - 700\<rparr> = \<lparr>vx = 100, vy = 3, vz = - 100\<rparr>"
  using isInBounds_clampToBounds [of "\<lparr>vx = 500, vy = 3, vz = - 700\<rparr>" GAME_CONSTANTS]
  by (simp add: worldSize_GAME_CONSTANTS clampToBounds_def clamp_def Let_def)

text \<open>
  On Numbers, with the table of \<^verbatim>\<open>constants.js\<close>: a clamped position is in bounds when its
  \<open>x\<close> and \<open>z\<close> are not NaN.
\<close>

lemma isInBounds_f64_clampToBounds_f64:
  assumes "fx position \<noteq> NaN" "fz position \<noteq> NaN"
  shows "isInBounds_f64 (Some GAME_CONSTANTS) (clampToBounds_f64 (Some GAME_CONSTANTS) position)"
  unfolding isInBounds_f64_def clampToBounds_f64_table Let_def halfSize_GAME_CONSTANTS
  using clamp_f64_in_range [of 100 "fx position"] clamp_f64_in_range [of 100 "fz position"] assms
  by (simp add: worldSize_GAME_CONSTANTS f64_round_numeral)


end
